theory Spec2Isabelle
  imports Main "HOL-Library.Sublist" "HOL-Library.Finite_Map"
begin

section \<open>Strings\<close>

text \<open>
  Go strings are byte sequences; they are modelled as \<open>string\<close> (a list of
  \<open>char\<close>).  The functions of package \<open>strings\<close> that the program calls
  are written out here.  \<open>ToLower\<close> and \<open>ToUpper\<close> are modelled on ASCII letters
  only (every other byte is left alone).
\<close>

definition HasPrefix :: "string \<Rightarrow> string \<Rightarrow> bool" where
  "HasPrefix s p = prefix p s"

primrec Contains :: "string \<Rightarrow> string \<Rightarrow> bool" where
  "Contains [] sub = (sub = [])"
| "Contains (c # cs) sub = (prefix sub (c # cs) \<or> Contains cs sub)"

definition lowerChar :: "char \<Rightarrow> char" where
  "lowerChar c =
     (let n = (of_char c :: nat) in if 65 \<le> n \<and> n \<le> 90 then char_of (n + 32) else c)"

definition upperChar :: "char \<Rightarrow> char" where
  "upperChar c =
     (let n = (of_char c :: nat) in if 97 \<le> n \<and> n \<le> 122 then char_of (n - 32) else c)"

definition ToLower :: "string \<Rightarrow> string" where
  "ToLower s = map lowerChar s"

definition ToUpper :: "string \<Rightarrow> string" where
  "ToUpper s = map upperChar s"

text \<open>\<open>Split s d\<close> is \<open>strings.Split\<close> for a one-byte separator \<open>d\<close>: the
  pieces between the separators, the empty pieces included.\<close>

primrec Split :: "string \<Rightarrow> char \<Rightarrow> string list" where
  "Split [] d = [[]]"
| "Split (c # cs) d =
     (if c = d then [] # Split cs d
      else (case Split cs d of [] \<Rightarrow> [[c]] | x # xs \<Rightarrow> (c # x) # xs))"

text \<open>\<open>JoinSep xs sep\<close> is \<open>strings.Join\<close>.\<close>

fun JoinSep :: "string list \<Rightarrow> string \<Rightarrow> string" where
  "JoinSep [] sep = []"
| "JoinSep [x] sep = x"
| "JoinSep (x # y # ys) sep = x @ sep @ JoinSep (y # ys) sep"

section \<open>The catalog\<close>

text \<open>The structs \<open>Version\<close> (one archive of a release) and \<open>Release\<close>.\<close>

record Version =
  Filename :: string
  OS :: string
  Arch :: string
  Version :: string
  Sha256 :: string
  Size :: int
  Kind :: string

record Release =
  ReleaseVersion :: string
  Stable :: bool
  Versions :: "Version list"

text \<open>
  The host the program runs on.  \<open>GOOS\<close> and \<open>GOARCH\<close> are the constants of
  package \<open>runtime\<close>.  \<open>currentShell\<close> and \<open>lineEnding\<close> are declared in a
  platform file of the repository that is not part of the sources at hand, so
  they are parameters here.  \<open>powershell\<close> is the result of the external
  PowerShell command run by \<open>persistEnvVarWindows\<close>.
\<close>

datatype errno = ENOENT | EEXIST | ENOTEMPTY | EINVAL | EISDIR | ENOTDIR | ELOOP

datatype error =
    PathError string string errno
  | LinkError string string string errno
  | HomeNotDefined
  | FailedHomeDir error
  | SyscallError string errno
  | ErrTooLong
  | UnsupportedShell string
  | HttpError string
  | JsonError string
  | ExecError string
  | BootstrapError string error
  | BootstrapDownloadFailed string error

record host =
  GOOS :: string
  GOARCH :: string
  currentShell :: string
  lineEnding :: string
  powershell :: "error option"

definition isValidArchive :: "host \<Rightarrow> Version \<Rightarrow> bool" where
  "isValidArchive h v =
     (let goos = GOOS h;
          goarch = (if GOOS h = ''linux'' \<and> GOARCH h = ''arm'' then ''armv6l'' else GOARCH h)
      in if OS v = goos \<and> Arch v = goarch \<and> Kind v = ''archive'' \<and> Sha256 v \<noteq> ''''
         then True else False)"

text \<open>
  \<open>listVersions\<close>: the HTTP request and the JSON decoding are outside the
  model; their outcome \<open>fetched\<close> (an error, or the decoded releases in the
  order the server sent them) is an argument.  The two nested loops append, in
  order, every archive of a stable release that passes \<open>isValidArchive\<close>.
\<close>

definition listVersions :: "host \<Rightarrow> error + Release list \<Rightarrow> error + Version list" where
  "listVersions h fetched =
     (case fetched of
        Inl e \<Rightarrow> Inl e
      | Inr releases \<Rightarrow>
          Inr (concat (map (\<lambda>release.
                 filter (\<lambda>v. Stable release \<and> isValidArchive h v) (Versions release)) releases)))"

section \<open>Commands: the version named on the command line\<close>

text \<open>
  Every command ends the process through \<open>log.Fatal\<close> / \<open>log.Fatalf\<close> (exit
  status 1 after printing a message) or by a run-time panic, or returns.  The
  constructors name the message printed.
\<close>

datatype fatal =
    Usage
  | Fatal error
  | UpdateFailed error
  | CantRemoveDefault string
  | RemoveFailed string error
  | Removed string
  | PanicIndexOutOfRange

text \<open>The statement
  \<^verbatim>\<open>if !strings.HasPrefix(version, "go") { version = "go" + version }\<close>
  that \<open>removeCmd\<close> and \<open>installCmd\<close> both contain.\<close>

definition goPrefix :: "string \<Rightarrow> string" where
  "goPrefix version = (if \<not> HasPrefix version ''go'' then ''go'' @ version else version)"

text \<open>
  \<open>installCmd\<close>, lines 244 to 266: from \<open>os.Args\<close> to the version and the
  changelist that the rest of the command installs.  \<open>installSwitch\<close> is the
  \<^verbatim>\<open>switch version\<close> statement, \<open>installTarget\<close> the whole prefix of the
  command.  Indexing a slice out of range panics.
\<close>

definition installSwitch ::
  "host \<Rightarrow> error + Release list \<Rightarrow> string list \<Rightarrow> string \<Rightarrow> fatal + string \<times> string" where
  "installSwitch h fetched args version =
     (if version = ''up'' \<or> version = ''latest'' \<or> version = ''update'' then
        (case listVersions h fetched of
           Inl err \<Rightarrow> Inl (UpdateFailed err)
         | Inr versions \<Rightarrow>
             (case versions of
                [] \<Rightarrow> Inl PanicIndexOutOfRange
              | v # _ \<Rightarrow> Inr (Version v, '''')))
      else if version = ''tip'' \<or> version = ''gotip'' then
        Inr (version, if length args = 3 then args ! 2 else '''')
      else Inr (version, ''''))"

definition installTarget ::
  "host \<Rightarrow> error + Release list \<Rightarrow> string list \<Rightarrow> fatal + string \<times> string" where
  "installTarget h fetched args0 =
     (let args = (if length args0 = 2 then args0 @ [''latest''] else args0)
      in if length args < 2 then Inl PanicIndexOutOfRange
         else (case installSwitch h fetched args (ToLower (args ! 1)) of
                 Inl f \<Rightarrow> Inl f
               | Inr (version, CL) \<Rightarrow> Inr (goPrefix version, CL)))"

section \<open>Paths\<close>

text \<open>
  \<open>filepath.Clean\<close> and \<open>filepath.Join\<close> of the Go library, for the separator
  \<open>/\<close>.  \<open>cleanStep\<close> handles one element of the path: empty elements and
  \<open>.\<close> are dropped, \<open>..\<close> removes the element before it (at the start of a
  rooted path it is dropped, at the start of a relative one it is kept), any
  other element is kept.  \<open>out\<close> holds the elements kept so far, the last one
  first.
\<close>

definition cleanStep :: "bool \<Rightarrow> string list \<Rightarrow> string \<Rightarrow> string list" where
  "cleanStep rooted out e =
     (if e = [] \<or> e = ''.'' then out
      else if e = ''..'' then
        (case out of
           [] \<Rightarrow> (if rooted then [] else [''..''])
         | x # xs \<Rightarrow> (if x = ''..'' then ''..'' # out else xs))
      else e # out)"

definition filepath_Clean :: "string \<Rightarrow> string" where
  "filepath_Clean path =
     (if path = [] then ''.''
      else
        (let rooted = (hd path = CHR ''/'');
             out = foldl (cleanStep rooted) [] (Split path (CHR ''/''));
             body = JoinSep (rev out) ''/''
         in if rooted then CHR ''/'' # body
            else if body = [] then ''.'' else body))"

definition filepath_Join :: "string list \<Rightarrow> string" where
  "filepath_Join elem =
     (case dropWhile (\<lambda>e. e = []) elem of
        [] \<Rightarrow> []
      | es \<Rightarrow> filepath_Clean (JoinSep es ''/''))"

section \<open>The file system and the process environment\<close>

text \<open>
  The state outside the program: a file system and the environment variables
  of the process.  The file system is a finite map from path names to
  entries: a directory, a regular file with its contents, or a symbolic link
  with its target.  Names are compared as they are written: \<open>k\<close> lies below
  the directory \<open>p\<close> when \<open>k\<close> starts with \<open>p\<close> and a separator.  The model has
  no permissions.  An entry of the map exists, and the directories leading to
  an existing name are not looked up.  Creating an entry needs its directory:
  the root and the working directory always exist, any other directory must be
  in the map, as a directory or as a link to one.  The target of a link is
  looked up as it is written.
\<close>

datatype node = Dir | File string | Link string

record world =
  files :: "(string, node) fmap"
  environ :: "(string, string) fmap"

definition dirPrefix :: "string \<Rightarrow> string" where
  "dirPrefix p = (if p \<noteq> [] \<and> last p = CHR ''/'' then p else p @ ''/'')"

definition below :: "string \<Rightarrow> string \<Rightarrow> bool" where
  "below p k = (prefix (dirPrefix p) k \<and> k \<noteq> p)"

definition hasEntries :: "(string, node) fmap \<Rightarrow> string \<Rightarrow> bool" where
  "hasEntries fs p = (\<exists>k \<in> fmdom' fs. below p k)"

definition IsNotExist :: "error \<Rightarrow> bool" where
  "IsNotExist err =
     (case err of
        PathError _ _ e \<Rightarrow> e = ENOENT
      | LinkError _ _ _ e \<Rightarrow> e = ENOENT
      | SyscallError _ e \<Rightarrow> e = ENOENT
      | _ \<Rightarrow> False)"

text \<open>Looking up the file or directory behind a name follows symbolic links, up to a fixed number of them.\<close>

primrec followLinks :: "nat \<Rightarrow> (string, node) fmap \<Rightarrow> string \<Rightarrow> string option" where
  "followLinks 0 fs p =
     (case fmlookup fs p of Some (Link t) \<Rightarrow> None | _ \<Rightarrow> Some p)"
| "followLinks (Suc n) fs p =
     (case fmlookup fs p of Some (Link t) \<Rightarrow> followLinks n fs t | _ \<Rightarrow> Some p)"

definition maxSymlinks :: nat where
  "maxSymlinks = 40"

text \<open>\<open>parentDir\<close> is \<open>filepath.Dir\<close> on a cleaned path: the path without
  its last element.  \<open>dirError\<close> is the error of looking a directory up, if
  there is one.\<close>

definition parentDir :: "string \<Rightarrow> string" where
  "parentDir p =
     (if CHR ''/'' \<notin> set p then ''.''
      else (let d = rev (drop 1 (dropWhile (\<lambda>c. c \<noteq> CHR ''/'') (rev p)))
            in if d = [] then ''/'' else d))"

definition dirError :: "(string, node) fmap \<Rightarrow> string \<Rightarrow> errno option" where
  "dirError fs d =
     (if d = ''/'' \<or> d = ''.'' then None
      else (case followLinks maxSymlinks fs d of
              None \<Rightarrow> Some ELOOP
            | Some q \<Rightarrow>
                (case fmlookup fs q of
                   None \<Rightarrow> Some ENOENT
                 | Some Dir \<Rightarrow> None
                 | Some _ \<Rightarrow> Some ENOTDIR)))"

text \<open>\<open>os.Remove\<close>: unlinks a file or a link, removes an empty directory.\<close>

definition os_Remove :: "(string, node) fmap \<Rightarrow> string \<Rightarrow> error + (string, node) fmap" where
  "os_Remove fs name =
     (case fmlookup fs name of
        None \<Rightarrow> Inl (PathError ''remove'' name ENOENT)
      | Some Dir \<Rightarrow>
          (if hasEntries fs name then Inl (PathError ''remove'' name ENOTEMPTY)
           else Inr (fmdrop name fs))
      | Some _ \<Rightarrow> Inr (fmdrop name fs))"

text \<open>\<open>os.Symlink oldname newname\<close>: creates the link \<open>newname\<close> with target
  \<open>oldname\<close>; fails when the directory of \<open>newname\<close> cannot be looked up and
  when \<open>newname\<close> exists.\<close>

definition os_Symlink ::
  "(string, node) fmap \<Rightarrow> string \<Rightarrow> string \<Rightarrow> error + (string, node) fmap" where
  "os_Symlink fs oldname newname =
     (if newname = [] then Inl (LinkError ''symlink'' oldname newname ENOENT)
      else
        (case dirError fs (parentDir newname) of
           Some e \<Rightarrow> Inl (LinkError ''symlink'' oldname newname e)
         | None \<Rightarrow>
             (case fmlookup fs newname of
                Some _ \<Rightarrow> Inl (LinkError ''symlink'' oldname newname EEXIST)
              | None \<Rightarrow> Inr (fmupd newname (Link oldname) fs))))"

definition os_Readlink :: "(string, node) fmap \<Rightarrow> string \<Rightarrow> error + string" where
  "os_Readlink fs name =
     (case fmlookup fs name of
        None \<Rightarrow> Inl (PathError ''readlink'' name ENOENT)
      | Some (Link t) \<Rightarrow> Inr t
      | Some _ \<Rightarrow> Inl (PathError ''readlink'' name EINVAL))"

text \<open>
  \<open>os.RemoveAll\<close>: nothing to do for the empty path; a path whose last
  element is \<open>.\<close> is refused; when \<open>os.Remove\<close> succeeds or reports that the
  path does not exist the call succeeds; otherwise the path and everything
  below it are removed.
\<close>

definition endsWithDot :: "string \<Rightarrow> bool" where
  "endsWithDot path = (path = ''.'' \<or> suffix ''/.'' path)"

definition os_RemoveAll :: "(string, node) fmap \<Rightarrow> string \<Rightarrow> error + (string, node) fmap" where
  "os_RemoveAll fs path =
     (if path = [] then Inr fs
      else if endsWithDot path then Inl (PathError ''RemoveAll'' path EINVAL)
      else
        (case os_Remove fs path of
           Inr fs' \<Rightarrow> Inr fs'
         | Inl err \<Rightarrow>
             (if IsNotExist err then Inr fs
              else Inr (fmfilter (\<lambda>k. \<not> (k = path \<or> below path k)) fs))))"

text \<open>\<open>os.OpenFile\<close> for reading, and reading the file to its end.  A
  directory can be opened, but reading it fails.\<close>

definition readFile :: "(string, node) fmap \<Rightarrow> string \<Rightarrow> error + string" where
  "readFile fs name =
     (case followLinks maxSymlinks fs name of
        None \<Rightarrow> Inl (PathError ''open'' name ELOOP)
      | Some p \<Rightarrow>
          (case fmlookup fs p of
             None \<Rightarrow> Inl (PathError ''open'' name ENOENT)
           | Some (File content) \<Rightarrow> Inr content
           | Some _ \<Rightarrow> Inl (PathError ''read'' name EISDIR)))"

text \<open>\<open>os.OpenFile\<close> with \<open>O_APPEND|O_WRONLY|O_CREATE\<close>, then \<open>WriteString\<close>: the
  file is created when it does not exist, which needs its directory; the data
  goes to its end.\<close>

definition appendString ::
  "(string, node) fmap \<Rightarrow> string \<Rightarrow> string \<Rightarrow> error + (string, node) fmap" where
  "appendString fs name data =
     (case followLinks maxSymlinks fs name of
        None \<Rightarrow> Inl (PathError ''open'' name ELOOP)
      | Some p \<Rightarrow>
          (case fmlookup fs p of
             None \<Rightarrow>
               (case dirError fs (parentDir p) of
                  Some e \<Rightarrow> Inl (PathError ''open'' name e)
                | None \<Rightarrow> Inr (fmupd p (File data) fs))
           | Some (File content) \<Rightarrow> Inr (fmupd p (File (content @ data)) fs)
           | Some _ \<Rightarrow> Inl (PathError ''open'' name EISDIR)))"

definition Getenv :: "world \<Rightarrow> string \<Rightarrow> string" where
  "Getenv w key = (case fmlookup (environ w) key of None \<Rightarrow> [] | Some v \<Rightarrow> v)"

definition os_Setenv :: "world \<Rightarrow> string \<Rightarrow> string \<Rightarrow> error option \<times> world" where
  "os_Setenv w key val =
     (if key = [] \<or> CHR ''='' \<in> set key \<or> CHR 0x00 \<in> set key \<or> CHR 0x00 \<in> set val
      then (Some (SyscallError ''setenv'' EINVAL), w)
      else (None, w\<lparr>environ := fmupd key val (environ w)\<rparr>))"

definition UserHomeDir :: "host \<Rightarrow> world \<Rightarrow> error + string" where
  "UserHomeDir h w =
     (let env = (if GOOS h = ''windows'' then ''USERPROFILE''
                 else if GOOS h = ''plan9'' then ''home'' else ''HOME'');
          v = Getenv w env
      in if v \<noteq> [] then Inr v
         else if GOOS h = ''android'' then Inr ''/sdcard''
         else if GOOS h = ''ios'' then Inr ''/''
         else Inl HomeNotDefined)"

section \<open>The current version\<close>

definition versionRoot :: "host \<Rightarrow> world \<Rightarrow> string \<Rightarrow> error + string" where
  "versionRoot h w version =
     (case UserHomeDir h w of
        Inl err \<Rightarrow> Inl (FailedHomeDir err)
      | Inr homedir \<Rightarrow> Inr (filepath_Join [homedir, ''sdk'', version]))"

definition isDefault :: "host \<Rightarrow> world \<Rightarrow> string \<Rightarrow> fatal + bool" where
  "isDefault h w version =
     (case versionRoot h w version of
        Inl err \<Rightarrow> Inl (Fatal err)
      | Inr goroot \<Rightarrow>
          (case versionRoot h w ''go'' of
             Inl err \<Rightarrow> Inl (Fatal err)
           | Inr golink \<Rightarrow>
               (case os_Readlink (files w) golink of
                  Inl err \<Rightarrow> (if IsNotExist err then Inr False else Inl (Fatal err))
                | Inr defaultGoRoot \<Rightarrow>
                    (if goroot = defaultGoRoot then Inr True else Inr False))))"

text \<open>\<open>setDefaultVersion\<close> returns its error (\<open>None\<close> for \<open>nil\<close>) and the state
  it leaves.  The result of \<open>os.Remove\<close> is assigned to the blank identifier.\<close>

definition setDefaultVersion :: "host \<Rightarrow> world \<Rightarrow> string \<Rightarrow> error option \<times> world" where
  "setDefaultVersion h w version =
     (case versionRoot h w version of
        Inl err \<Rightarrow> (Some err, w)
      | Inr goroot \<Rightarrow>
          (case versionRoot h w ''go'' of
             Inl err \<Rightarrow> (Some err, w)
           | Inr defaultGoRoot \<Rightarrow>
               (let fs1 = (case os_Remove (files w) defaultGoRoot of
                             Inl _ \<Rightarrow> files w
                           | Inr fs' \<Rightarrow> fs')
                in case os_Symlink fs1 goroot defaultGoRoot of
                     Inl err \<Rightarrow> (Some err, w\<lparr>files := fs1\<rparr>)
                   | Inr fs2 \<Rightarrow> (None, w\<lparr>files := fs2\<rparr>))))"

text \<open>\<open>removeCmd\<close> always ends the process with a message; it returns that
  message and the state it leaves.  \<open>args\<close> is \<open>os.Args\<close>.\<close>

definition removeCmd :: "host \<Rightarrow> world \<Rightarrow> string list \<Rightarrow> fatal \<times> world" where
  "removeCmd h w args =
     (if length args \<noteq> 3 then (Usage, w)
      else
        (let version = goPrefix (args ! 2)
         in case isDefault h w version of
              Inl f \<Rightarrow> (f, w)
            | Inr True \<Rightarrow> (CantRemoveDefault version, w)
            | Inr False \<Rightarrow>
                (case versionRoot h w version of
                   Inl err \<Rightarrow> (Fatal err, w)
                 | Inr goroot \<Rightarrow>
                     (case os_RemoveAll (files w) goroot of
                        Inl err \<Rightarrow> (RemoveFailed version err, w)
                      | Inr fs' \<Rightarrow> (Removed version, w\<lparr>files := fs'\<rparr>)))))"

text \<open>
  \<open>bootstrap\<close> returns normally, returns an error, or panics.  The package
  \<open>goversion\<close> is not part of the sources at hand: its function \<open>Install\<close> is
  the argument \<open>install\<close>.
\<close>

datatype 'a result = Ok 'a | Err error | Panic

definition bootstrap ::
  "host \<Rightarrow> world \<Rightarrow> error + Release list \<Rightarrow> (world \<Rightarrow> string \<Rightarrow> string \<Rightarrow> error + world) \<Rightarrow>
     (string \<times> string) result \<times> world" where
  "bootstrap h w fetched install =
     (case listVersions h fetched of
        Inl err \<Rightarrow> (Err err, w)
      | Inr versions \<Rightarrow>
          (case versions of
             [] \<Rightarrow> (Panic, w)
           | v # _ \<Rightarrow>
               (let latestVersion = Version v
                in case versionRoot h w latestVersion of
                     Inl err \<Rightarrow> (Err (BootstrapError latestVersion err), w)
                   | Inr goroot \<Rightarrow>
                       (case install w goroot latestVersion of
                          Inl err \<Rightarrow> (Err (BootstrapDownloadFailed latestVersion err), w)
                        | Inr w' \<Rightarrow>
                            (Ok (filepath_Join [goroot, ''bin'', ''go''], latestVersion), w')))))"

section \<open>Shell profiles\<close>

definition bashConfig :: string where
  "bashConfig = ''.bash_profile''"

definition zshConfig :: string where
  "zshConfig = ''.zshrc''"

text \<open>
  \<open>bufio.Scanner\<close> with the default split function \<open>ScanLines\<close>, run over
  the pieces of the contents between newlines: a piece is a line once a
  carriage return at its end is dropped; the piece after the last newline is a
  line unless it is empty; a piece that does not fit the scanner's buffer ends
  the scan with \<open>ErrTooLong\<close>.  \<open>scanLoop\<close> is the loop of
  \<open>checkStringExistsFile\<close>, which stops at the first line equal to \<open>value\<close>.
\<close>

definition MaxScanTokenSize :: nat where
  "MaxScanTokenSize = 65536"

definition dropCR :: "string \<Rightarrow> string" where
  "dropCR s = (if s \<noteq> [] \<and> last s = CHR 0x0D then butlast s else s)"

fun scanLoop :: "string \<Rightarrow> string list \<Rightarrow> error + bool" where
  "scanLoop val [] = Inr False"
| "scanLoop val [s] =
     (if s = [] then Inr False
      else if MaxScanTokenSize \<le> length s then Inl ErrTooLong
      else if dropCR s = val then Inr True else Inr False)"
| "scanLoop val (s # t # ts) =
     (if MaxScanTokenSize \<le> length s then Inl ErrTooLong
      else if dropCR s = val then Inr True
      else scanLoop val (t # ts))"

definition checkStringExistsFile :: "(string, node) fmap \<Rightarrow> string \<Rightarrow> string \<Rightarrow> error + bool" where
  "checkStringExistsFile fs filename val =
     (case readFile fs filename of
        Inl err \<Rightarrow> (if IsNotExist err then Inr False else Inl err)
      | Inr content \<Rightarrow> scanLoop val (Split content (CHR 0x0A)))"

definition appendToFile ::
  "host \<Rightarrow> (string, node) fmap \<Rightarrow> string \<Rightarrow> string \<Rightarrow> error option \<times> (string, node) fmap" where
  "appendToFile h fs filename val =
     (case checkStringExistsFile fs filename val of
        Inl err \<Rightarrow> (Some err, fs)
      | Inr ok \<Rightarrow>
          (if ok then (None, fs)
           else (case appendString fs filename (lineEnding h @ val @ lineEnding h) of
                   Inl err \<Rightarrow> (Some err, fs)
                 | Inr fs' \<Rightarrow> (None, fs'))))"

definition isShell :: "host \<Rightarrow> string \<Rightarrow> bool" where
  "isShell h name = Contains (currentShell h) name"

definition persistEnvVarWindows :: "host \<Rightarrow> string \<Rightarrow> string \<Rightarrow> error option" where
  "persistEnvVarWindows h name val = powershell h"

definition getHomeDir :: "host \<Rightarrow> world \<Rightarrow> error + string" where
  "getHomeDir h w =
     (case UserHomeDir h w of Inl err \<Rightarrow> Inl err | Inr homedir \<Rightarrow> Inr homedir)"

definition shellConfigFile :: "host \<Rightarrow> world \<Rightarrow> error + string" where
  "shellConfigFile h w =
     (case getHomeDir h w of
        Inl err \<Rightarrow> Inl err
      | Inr home \<Rightarrow>
          (if isShell h ''bash'' then Inr (filepath_Join [home, bashConfig])
           else if isShell h ''zsh'' then Inr (filepath_Join [home, zshConfig])
           else Inl (UnsupportedShell (currentShell h))))"

definition persistEnvVar :: "host \<Rightarrow> world \<Rightarrow> string \<Rightarrow> string \<Rightarrow> error option \<times> world" where
  "persistEnvVar h w name val =
     (if GOOS h = ''windows'' \<and> persistEnvVarWindows h name val \<noteq> None
      then (persistEnvVarWindows h name val, w)
      else if GOOS h = ''windows'' \<and> (isShell h ''cmd.exe'' \<or> isShell h ''powershell.exe'')
      then os_Setenv w (ToUpper name) val
      else
        (case shellConfigFile h w of
           Inl err \<Rightarrow> (Some err, w)
         | Inr rc \<Rightarrow>
             (let line = ''export '' @ ToUpper name @ ''='' @ val
              in case appendToFile h (files w) rc line of
                   (Some err, fs') \<Rightarrow> (Some err, w\<lparr>files := fs'\<rparr>)
                 | (None, fs') \<Rightarrow> os_Setenv (w\<lparr>files := fs'\<rparr>) (ToUpper name) val)))"

section \<open>Notions used in the statements\<close>

text \<open>A plain name is a single path element: not empty, not \<open>.\<close> or \<open>..\<close>,
  and without a separator.  Version names such as \<open>go1.16\<close> are plain.\<close>

definition plainName :: "string \<Rightarrow> bool" where
  "plainName v = (v \<noteq> [] \<and> v \<noteq> ''.'' \<and> v \<noteq> ''..'' \<and> CHR ''/'' \<notin> set v)"

definition realElem :: "string \<Rightarrow> bool" where
  "realElem e = (e \<noteq> [] \<and> e \<noteq> ''.'' \<and> CHR ''/'' \<notin> set e)"

text \<open>The archives of a catalog in the order of the catalog, each with the
  \<open>stable\<close> flag of its release, and the first of them that is stable and
  installable on the host.\<close>

definition catalogEntries :: "Release list \<Rightarrow> (bool \<times> Version) list" where
  "catalogEntries releases = concat (map (\<lambda>r. map (\<lambda>v. (Stable r, v)) (Versions r)) releases)"

definition firstInstallable :: "host \<Rightarrow> Release list \<Rightarrow> Version option" where
  "firstInstallable h releases =
     map_option snd
       (List.find (\<lambda>(stable, v). stable \<and> isValidArchive h v) (catalogEntries releases))"

section \<open>Example states\<close>

text \<open>A Linux host with \<open>bash\<close>, a catalog of three releases, and a home
  directory in which \<open>go1.16\<close> and \<open>go1.15\<close> are installed and \<open>go1.16\<close>
  is the current version.\<close>

definition linuxHost :: host where
  "linuxHost = \<lparr>GOOS = ''linux'', GOARCH = ''amd64'', currentShell = ''/bin/bash'',
     lineEnding = [CHR 0x0A], powershell = None\<rparr>"

definition archive :: "string \<Rightarrow> string \<Rightarrow> string \<Rightarrow> string \<Rightarrow> Version" where
  "archive version goos goarch kind =
     \<lparr>Filename = version @ ''.'' @ goos @ ''-'' @ goarch @ ''.tar.gz'', OS = goos, Arch = goarch,
      Version = version, Sha256 = ''0a1b'', Size = 1000, Kind = kind\<rparr>"

definition exampleCatalog :: "Release list" where
  "exampleCatalog =
     [\<lparr>ReleaseVersion = ''go1.17rc1'', Stable = False,
       Versions = [archive ''go1.17rc1'' ''linux'' ''amd64'' ''archive'']\<rparr>,
      \<lparr>ReleaseVersion = ''go1.16'', Stable = True,
       Versions = [archive ''go1.16'' ''darwin'' ''amd64'' ''archive'',
                   archive ''go1.16'' ''linux'' ''amd64'' ''installer'',
                   archive ''go1.16'' ''linux'' ''amd64'' ''archive'']\<rparr>,
      \<lparr>ReleaseVersion = ''go1.15'', Stable = True,
       Versions = [archive ''go1.15'' ''linux'' ''amd64'' ''archive'']\<rparr>]"

definition exampleFiles :: "(string, node) fmap" where
  "exampleFiles =
     fmupd ''/home/u'' Dir
    (fmupd ''/home/u/sdk'' Dir
    (fmupd ''/home/u/sdk/go'' (Link ''/home/u/sdk/go1.16'')
    (fmupd ''/home/u/sdk/go1.16'' Dir
    (fmupd ''/home/u/sdk/go1.16/bin'' Dir
    (fmupd ''/home/u/sdk/go1.15'' Dir fmempty)))))"

definition exampleWorld :: world where
  "exampleWorld = \<lparr>files = exampleFiles, environ = fmupd ''HOME'' ''/home/u'' fmempty\<rparr>"

text \<open>
  Following the words of claim C7: the removal of the pointer counts as
  successful only when it succeeds or reports that the pointer does not exist;
  any other failure of the removal is the failure of the operation.
\<close>

definition setCurrent_claimed :: "host \<Rightarrow> world \<Rightarrow> string \<Rightarrow> error option \<times> world" where
  "setCurrent_claimed h w version =
     (case versionRoot h w version of
        Inl err \<Rightarrow> (Some err, w)
      | Inr goroot \<Rightarrow>
          (case versionRoot h w ''go'' of
             Inl err \<Rightarrow> (Some err, w)
           | Inr pointer \<Rightarrow>
               (case os_Remove (files w) pointer of
                  Inl err \<Rightarrow>
                    (if IsNotExist err then
                       (case os_Symlink (files w) goroot pointer of
                          Inl err' \<Rightarrow> (Some err', w)
                        | Inr fs2 \<Rightarrow> (None, w\<lparr>files := fs2\<rparr>))
                     else (Some err, w))
                | Inr fs1 \<Rightarrow>
                    (case os_Symlink fs1 goroot pointer of
                       Inl err' \<Rightarrow> (Some err', w\<lparr>files := fs1\<rparr>)
                     | Inr fs2 \<Rightarrow> (None, w\<lparr>files := fs2\<rparr>)))))"

text \<open>A home directory in which an unpacked distribution occupies the place
  of the pointer: \<open>sdk/go\<close> is a directory with contents.\<close>

definition occupiedWorld :: world where
  "occupiedWorld =
     \<lparr>files = fmupd ''/home/u'' Dir
             (fmupd ''/home/u/sdk'' Dir
             (fmupd ''/home/u/sdk/go'' Dir
             (fmupd ''/home/u/sdk/go/bin'' Dir
             (fmupd ''/home/u/sdk/go1.16'' Dir fmempty)))),
      environ = fmupd ''HOME'' ''/home/u'' fmempty\<rparr>"

text \<open>A home directory without the directory \<open>sdk\<close>.\<close>

definition bareWorld :: world where
  "bareWorld = \<lparr>files = fmupd ''/home/u'' Dir fmempty, environ = fmupd ''HOME'' ''/home/u'' fmempty\<rparr>"

text \<open>The lines of a file as \<open>bufio.Scanner\<close> delivers them (without its
  limit on the length of a line), and how often a line occurs in a file; a
  file that cannot be read has no lines.\<close>

fun scanLines :: "string list \<Rightarrow> string list" where
  "scanLines [] = []"
| "scanLines [s] = (if s = [] then [] else [dropCR s])"
| "scanLines (s # t # ts) = dropCR s # scanLines (t # ts)"

definition occurrences :: "(string, node) fmap \<Rightarrow> string \<Rightarrow> string \<Rightarrow> nat" where
  "occurrences fs filename val =
     (case readFile fs filename of
        Inl _ \<Rightarrow> 0
      | Inr content \<Rightarrow> count_list (scanLines (Split content (CHR 0x0A))) val)"

text \<open>A profile file before and after the line for \<open>GOPATH\<close> is appended.\<close>

definition profileFiles :: "(string, node) fmap" where
  "profileFiles =
     fmupd ''/home/u/.bash_profile'' (File ''# profile'') (fmupd ''/home/u'' Dir fmempty)"

definition profileFiles1 :: "(string, node) fmap" where
  "profileFiles1 =
     fmupd ''/home/u/.bash_profile''
       (File (''# profile'' @ [CHR 0x0A] @ ''export GOPATH=/home/u/go'' @ [CHR 0x0A]))
       (fmupd ''/home/u'' Dir fmempty)"

section \<open>Properties\<close>

subsection \<open>Paths\<close>

lemma Split_not_Nil: "Split s d \<noteq> []"
  by (induction s) (auto split: list.splits)

lemma Split_append: "Split (a @ d # b) d = Split a d @ Split b d"
proof (induction a)
  case Nil
  show ?case by simp
next
  case (Cons c a)
  obtain x xs where "Split a d = x # xs"
    using Split_not_Nil [of a d] by (cases "Split a d") auto
  with Cons show ?case by simp
qed

lemma Split_no_sep: "d \<notin> set v \<Longrightarrow> Split v d = [v]"
  by (induction v) auto

lemma Split_elems: "e \<in> set (Split s d) \<Longrightarrow> d \<notin> set e"
  by (induction s arbitrary: e) (auto split: if_splits list.splits)

lemma JoinSep_snoc:
  "JoinSep (xs @ [e]) sep = (if xs = [] then e else JoinSep xs sep @ sep @ e)"
  by (induction xs sep rule: JoinSep.induct) auto

lemma JoinSep_nonempty: "xs \<noteq> [] \<Longrightarrow> last xs \<noteq> [] \<Longrightarrow> JoinSep xs sep \<noteq> []"
  by (induction xs sep rule: JoinSep.induct) auto

lemma cleanStep_plain: "plainName e \<Longrightarrow> cleanStep r out e = e # out"
  by (auto simp: cleanStep_def plainName_def)

lemma JoinSep_snoc2: "JoinSep (xs @ [a, v]) sep = JoinSep (xs @ [a]) sep @ sep @ v"
  using JoinSep_snoc [of "xs @ [a]" v sep] by simp

lemma JoinSep_snoc_nonempty: "a \<noteq> [] \<Longrightarrow> JoinSep (xs @ [a]) sep \<noteq> []"
  by (simp add: JoinSep_snoc)

lemma Clean_snoc_plain:
  assumes "p \<noteq> []" "plainName a" "plainName v"
  shows "filepath_Clean (p @ CHR ''/'' # a @ CHR ''/'' # v) = filepath_Clean (p @ CHR ''/'' # a) @ CHR ''/'' # v"
proof -
  have na: "CHR ''/'' \<notin> set a" and nv: "CHR ''/'' \<notin> set v" and "a \<noteq> []"
    using assms by (auto simp: plainName_def)
  have s1: "Split (p @ CHR ''/'' # a) (CHR ''/'') = Split p (CHR ''/'') @ [a]"
    using Split_append [of p "CHR ''/''" a] na by (simp add: Split_no_sep)
  have s2: "Split (p @ CHR ''/'' # a @ CHR ''/'' # v) (CHR ''/'') = Split p (CHR ''/'') @ [a, v]"
    using Split_append [of "p @ CHR ''/'' # a" "CHR ''/''" v] s1 nv by (simp add: Split_no_sep)
  define r where "r = (hd p = CHR ''/'')"
  define out where "out = foldl (cleanStep r) [] (Split p (CHR ''/''))"
  have o1: "foldl (cleanStep r) [] (Split (p @ CHR ''/'' # a) (CHR ''/'')) = a # out"
    using assms by (simp add: s1 out_def cleanStep_plain)
  have o2: "foldl (cleanStep r) [] (Split (p @ CHR ''/'' # a @ CHR ''/'' # v) (CHR ''/'')) = v # a # out"
    using assms by (simp add: s2 out_def cleanStep_plain)
  have j: "JoinSep (rev (v # a # out)) ''/'' = JoinSep (rev (a # out)) ''/'' @ CHR ''/'' # v"
    using JoinSep_snoc2 [of "rev out" a v "''/''"] by simp
  have n1: "JoinSep (rev (a # out)) ''/'' \<noteq> []"
    using JoinSep_snoc_nonempty [OF \<open>a \<noteq> []\<close>, of "rev out" "''/''"] by simp
  have h1: "hd (p @ CHR ''/'' # a) = hd p" and h2: "hd (p @ CHR ''/'' # a @ CHR ''/'' # v) = hd p"
    using assms(1) by simp_all
  have c1: "filepath_Clean (p @ CHR ''/'' # a) =
      (if r then CHR ''/'' # JoinSep (rev (a # out)) ''/'' else JoinSep (rev (a # out)) ''/'')"
    unfolding filepath_Clean_def Let_def h1 r_def [symmetric] o1 using n1 by simp
  have c2: "filepath_Clean (p @ CHR ''/'' # a @ CHR ''/'' # v) =
      (if r then CHR ''/'' # JoinSep (rev (v # a # out)) ''/'' else JoinSep (rev (v # a # out)) ''/'')"
    unfolding filepath_Clean_def Let_def h2 r_def [symmetric] o2 j using n1 by simp
  show ?thesis unfolding c1 c2 j by simp
qed

lemma Join_sdk_plain:
  assumes "home \<noteq> []" "plainName v"
  shows "filepath_Join [home, ''sdk'', v] = filepath_Join [home, ''sdk''] @ CHR ''/'' # v"
proof -
  have "plainName ''sdk''" by (simp add: plainName_def)
  from Clean_snoc_plain [OF assms(1) this assms(2)] assms(1) show ?thesis
    by (simp add: filepath_Join_def)
qed

lemma Join_sdk_inj:
  assumes "home \<noteq> []" "plainName u" "plainName v"
  shows "filepath_Join [home, ''sdk'', u] = filepath_Join [home, ''sdk'', v] \<longleftrightarrow> u = v"
  using assms by (simp add: Join_sdk_plain)

lemma cleanStep_real:
  assumes "\<forall>x \<in> set out. realElem x" and "CHR ''/'' \<notin> set e"
  shows "\<forall>x \<in> set (cleanStep r out e). realElem x"
proof -
  have dd: "realElem ''..''"
    by (simp add: realElem_def)
  have ee: "realElem e" if "e \<noteq> []" "e \<noteq> ''.''"
    using that assms(2) by (simp add: realElem_def)
  show ?thesis
  proof (cases "e = [] \<or> e = ''.''")
    case True
    then show ?thesis using assms(1) by (auto simp: cleanStep_def)
  next
    case False
    show ?thesis
    proof (cases "e = ''..''")
      case True
      have "cleanStep r out ''..'' =
          (case out of [] \<Rightarrow> (if r then [] else [''..''])
           | x # xs \<Rightarrow> (if x = ''..'' then ''..'' # out else xs))"
        by (simp add: cleanStep_def)
      with True assms(1) dd show ?thesis
        by (cases out) simp_all
    next
      case F2: False
      with False have "cleanStep r out e = e # out"
        by (simp add: cleanStep_def)
      with False ee assms(1) show ?thesis by simp
    qed
  qed
qed

lemma foldl_cleanStep_real:
  "\<forall>x \<in> set out. realElem x \<Longrightarrow> \<forall>e \<in> set es. CHR ''/'' \<notin> set e \<Longrightarrow>
     \<forall>x \<in> set (foldl (cleanStep r) out es). realElem x"
proof (induction es arbitrary: out)
  case Nil
  then show ?case by simp
next
  case (Cons e es)
  have "\<forall>x \<in> set (cleanStep r out e). realElem x"
    using Cons.prems by (intro cleanStep_real) auto
  from Cons.IH [OF this] Cons.prems(2) show ?case by simp
qed

lemma suffix2_snoc: "suffix [a, b] (xs @ [c]) \<longleftrightarrow> b = c \<and> xs \<noteq> [] \<and> last xs = a"
proof -
  have "suffix ([a] @ [b]) (xs @ [c]) \<longleftrightarrow> b = c \<and> suffix [a] xs"
    by (rule snoc_suffix_snoc)
  moreover have "suffix [a] xs \<longleftrightarrow> xs \<noteq> [] \<and> last xs = a"
    by (metis snoc_eq_iff_butlast suffix_def)
  ultimately show ?thesis by simp
qed

lemma endsWithDot_snoc:
  "endsWithDot (xs @ [c]) \<longleftrightarrow> c = CHR ''.'' \<and> (xs = [] \<or> last xs = CHR ''/'')"
  using suffix2_snoc [of "CHR ''/''" "CHR ''.''" xs c]
  by (auto simp: endsWithDot_def)

lemma endsWithDot_sep_real:
  assumes "realElem e"
  shows "\<not> endsWithDot (X @ CHR ''/'' # e)"
proof -
  from assms obtain e' c where e: "e = e' @ [c]"
    by (cases e rule: rev_cases) (auto simp: realElem_def)
  have "X @ CHR ''/'' # e = (X @ CHR ''/'' # e') @ [c]" by (simp add: e)
  then have "endsWithDot (X @ CHR ''/'' # e) \<longleftrightarrow>
      c = CHR ''.'' \<and> last (X @ CHR ''/'' # e') = CHR ''/''"
    using endsWithDot_snoc [of "X @ CHR ''/'' # e'" c] by simp
  moreover have "\<not> (c = CHR ''.'' \<and> last (X @ CHR ''/'' # e') = CHR ''/'')"
    using assms by (cases e' rule: rev_cases) (auto simp: realElem_def e)
  ultimately show ?thesis by simp
qed

lemma endsWithDot_real:
  assumes "realElem e"
  shows "\<not> endsWithDot e"
proof -
  from assms obtain e' c where e: "e = e' @ [c]"
    by (cases e rule: rev_cases) (auto simp: realElem_def)
  show ?thesis
    using assms unfolding e endsWithDot_snoc
    by (cases e' rule: rev_cases) (auto simp: realElem_def)
qed

lemma endsWithDot_JoinSep:
  assumes "\<forall>x \<in> set xs. realElem x"
  shows "\<not> endsWithDot (JoinSep xs ''/'')"
proof (cases xs rule: rev_cases)
  case Nil
  then show ?thesis by (simp add: endsWithDot_def)
next
  case (snoc ys e)
  with assms have "realElem e" by simp
  show ?thesis
  proof (cases "ys = []")
    case True
    with snoc endsWithDot_real [OF \<open>realElem e\<close>] show ?thesis by simp
  next
    case False
    with snoc endsWithDot_sep_real [OF \<open>realElem e\<close>, of "JoinSep ys ''/''"] show ?thesis
      by (simp add: JoinSep_snoc)
  qed
qed

lemma Clean_endsWithDot: "endsWithDot (filepath_Clean p) \<longleftrightarrow> filepath_Clean p = ''.''"
proof
  assume "filepath_Clean p = ''.''"
  then show "endsWithDot (filepath_Clean p)" by (simp add: endsWithDot_def)
next
  assume d: "endsWithDot (filepath_Clean p)"
  show "filepath_Clean p = ''.''"
  proof (cases "p = []")
    case True
    then show ?thesis by (simp add: filepath_Clean_def)
  next
    case False
    define r where "r = (hd p = CHR ''/'')"
    define out where "out = foldl (cleanStep r) [] (Split p (CHR ''/''))"
    define body where "body = JoinSep (rev out) ''/''"
    have "\<forall>x \<in> set out. realElem x"
      unfolding out_def by (rule foldl_cleanStep_real) (auto dest: Split_elems)
    then have nb: "\<not> endsWithDot body"
      unfolding body_def by (intro endsWithDot_JoinSep) simp
    have c: "filepath_Clean p = (if r then CHR ''/'' # body else if body = [] then ''.'' else body)"
      using False by (simp add: filepath_Clean_def Let_def r_def out_def body_def)
    show ?thesis
    proof (cases r)
      case True
      with c d have "endsWithDot (CHR ''/'' # body)" by simp
      with nb have False
        by (auto simp: endsWithDot_def suffix_Cons)
      then show ?thesis ..
    next
      case False
      with c d nb show ?thesis by (auto split: if_splits)
    qed
  qed
qed

lemma Clean_not_Nil: "filepath_Clean p \<noteq> []"
  by (simp add: filepath_Clean_def Let_def)

lemma Join3_Clean: "home \<noteq> [] \<Longrightarrow> filepath_Join [home, a, b] = filepath_Clean (home @ CHR ''/'' # a @ CHR ''/'' # b)"
  by (simp add: filepath_Join_def)

subsection \<open>The catalog and the version named on the command line\<close>

lemma goPrefix_HasPrefix: "HasPrefix (goPrefix v) ''go''"
  by (simp add: goPrefix_def HasPrefix_def)

lemma goPrefix_fixed: "HasPrefix v ''go'' \<Longrightarrow> goPrefix v = v"
  by (simp add: goPrefix_def)

lemma ToLower_aliases:
  "ToLower ''up'' = ''up''" "ToLower ''latest'' = ''latest''" "ToLower ''update'' = ''update''"
  by (simp_all add: ToLower_def lowerChar_def)

lemma listVersions_filter:
  "listVersions h (Inr rs) =
     Inr (map snd (filter (\<lambda>(stable, v). stable \<and> isValidArchive h v) (catalogEntries rs)))"
  by (induction rs) (simp_all add: listVersions_def catalogEntries_def filter_map comp_def)

lemma find_Some_filter: "List.find P xs = Some x \<Longrightarrow> \<exists>ys. filter P xs = x # ys"
  by (induction xs) (auto split: if_splits)

lemma find_None_filter: "List.find P xs = None \<Longrightarrow> filter P xs = []"
  by (induction xs) (auto split: if_splits)

lemma listVersions_first:
  assumes "firstInstallable h rs = Some e"
  shows "\<exists>es. listVersions h (Inr rs) = Inr (e # es)"
proof -
  from assms obtain st where "List.find (\<lambda>(stable, v). stable \<and> isValidArchive h v) (catalogEntries rs) = Some (st, e)"
    by (auto simp: firstInstallable_def)
  from find_Some_filter [OF this] show ?thesis
    by (auto simp: listVersions_filter)
qed

lemma listVersions_none:
  assumes "firstInstallable h rs = None"
  shows "listVersions h (Inr rs) = Inr []"
  using assms by (simp add: firstInstallable_def listVersions_filter find_None_filter)

subsection \<open>The claims about the catalog and the version specifier\<close>

text \<open>
  Claim C3.  An archive entry is installable exactly when its \<open>os\<close> equals the
  host's operating system, its \<open>arch\<close> equals the host's architecture (a Linux
  host of architecture \<open>arm\<close> being compared against \<open>armv6l\<close>), its \<open>kind\<close> is
  \<open>archive\<close> and its \<open>sha256\<close> is not empty.
\<close>

theorem isValidArchive_iff:
  "isValidArchive h e \<longleftrightarrow>
     OS e = GOOS h \<and>
     Arch e = (if GOOS h = ''linux'' \<and> GOARCH h = ''arm'' then ''armv6l'' else GOARCH h) \<and>
     Kind e = ''archive'' \<and> Sha256 e \<noteq> ''''"
  by (simp add: isValidArchive_def Let_def)

theorem isValidArchive_iff_witness:
  "isValidArchive linuxHost (archive ''go1.16'' ''linux'' ''amd64'' ''archive'') \<and>
   \<not> isValidArchive linuxHost (archive ''go1.16'' ''linux'' ''amd64'' ''installer'') \<and>
   isValidArchive (linuxHost\<lparr>GOARCH := ''arm''\<rparr>) (archive ''go1.16'' ''linux'' ''armv6l'' ''archive'') \<and>
   \<not> isValidArchive (linuxHost\<lparr>GOARCH := ''arm''\<rparr>) (archive ''go1.16'' ''linux'' ''arm'' ''archive'')"
  using isValidArchive_iff [of linuxHost "archive ''go1.16'' ''linux'' ''amd64'' ''archive''"]
    isValidArchive_iff [of linuxHost "archive ''go1.16'' ''linux'' ''amd64'' ''installer''"]
    isValidArchive_iff [of "linuxHost\<lparr>GOARCH := ''arm''\<rparr>" "archive ''go1.16'' ''linux'' ''armv6l'' ''archive''"]
    isValidArchive_iff [of "linuxHost\<lparr>GOARCH := ''arm''\<rparr>" "archive ''go1.16'' ''linux'' ''arm'' ''archive''"]
  by (simp add: linuxHost_def archive_def)

text \<open>
  Claim C5.  When the catalog has an entry that is stable and installable, the
  specifiers \<open>up\<close>, \<open>latest\<close> and \<open>update\<close> all resolve to the version of
  the first such entry in the order of the catalog: the \<open>switch\<close> yields that
  version, and the command goes on with it after the \<open>go\<close> prefix step, which
  leaves a version that starts with \<open>go\<close> as it is.
\<close>

theorem latest_is_first_installable:
  assumes "firstInstallable h releases = Some e"
  shows "(\<forall>spec \<in> {''up'', ''latest'', ''update''}.
           installSwitch h (Inr releases) args spec = Inr (Version e, '''') \<and>
           installTarget h (Inr releases) [prog, spec] = Inr (goPrefix (Version e), '''')) \<and>
         (HasPrefix (Version e) ''go'' \<longrightarrow> goPrefix (Version e) = Version e)"
proof -
  from listVersions_first [OF assms(1)] obtain es where lv: "listVersions h (Inr releases) = Inr (e # es)" ..
  show ?thesis
    by (auto simp: installTarget_def installSwitch_def lv ToLower_aliases goPrefix_fixed)
qed

lemma firstInstallable_example:
  "firstInstallable linuxHost exampleCatalog = Some (archive ''go1.16'' ''linux'' ''amd64'' ''archive'')"
  by (simp add: firstInstallable_def catalogEntries_def exampleCatalog_def isValidArchive_def
      linuxHost_def archive_def)

theorem latest_is_first_installable_witness:
  "firstInstallable linuxHost exampleCatalog = Some (archive ''go1.16'' ''linux'' ''amd64'' ''archive'') \<and>
   installTarget linuxHost (Inr exampleCatalog) [''getgo'', ''up''] = Inr (''go1.16'', '''') \<and>
   installTarget linuxHost (Inr exampleCatalog) [''getgo'', ''latest''] = Inr (''go1.16'', '''') \<and>
   installTarget linuxHost (Inr exampleCatalog) [''getgo'', ''update''] = Inr (''go1.16'', '''')"
  using latest_is_first_installable [OF firstInstallable_example, of "[]" "''getgo''"]
    firstInstallable_example
  by (simp add: archive_def goPrefix_def HasPrefix_def)

text \<open>
  Claim C9.  When no entry of the catalog is stable and installable, resolving
  \<open>up\<close>, \<open>latest\<close> or \<open>update\<close> and \<open>bootstrap\<close> both index the empty
  slice at 0: the program panics, there is no error result.
\<close>

theorem empty_catalog_panics:
  assumes "listVersions h fetched = Inr []"
  shows "(\<forall>spec \<in> {''up'', ''latest'', ''update''}.
           installTarget h fetched [prog, spec] = Inl PanicIndexOutOfRange) \<and>
         bootstrap h w fetched install = (Panic, w)"
  using assms by (auto simp: installTarget_def installSwitch_def bootstrap_def ToLower_aliases)

lemma listVersions_empty_example:
  "listVersions (linuxHost\<lparr>GOOS := ''freebsd''\<rparr>) (Inr exampleCatalog) = Inr []"
  by (simp add: listVersions_def exampleCatalog_def isValidArchive_def linuxHost_def archive_def)

theorem empty_catalog_panics_witness:
  "listVersions (linuxHost\<lparr>GOOS := ''freebsd''\<rparr>) (Inr exampleCatalog) = Inr [] \<and>
   installTarget (linuxHost\<lparr>GOOS := ''freebsd''\<rparr>) (Inr exampleCatalog) [''getgo'', ''latest'']
     = Inl PanicIndexOutOfRange \<and>
   bootstrap (linuxHost\<lparr>GOOS := ''freebsd''\<rparr>) exampleWorld (Inr exampleCatalog)
       (\<lambda>w goroot version. Inr w) = (Panic, exampleWorld)"
  using empty_catalog_panics [OF listVersions_empty_example, of "''getgo''" exampleWorld
      "\<lambda>w goroot version. Inr w"] listVersions_empty_example
  by simp

subsection \<open>The file system\<close>

lemma fmupd_fmdrop: "fmupd k v (fmdrop k m) = fmupd k v m"
  by (rule fmap_ext) simp

lemma os_Remove_cases:
  "os_Remove fs p =
     (if fmlookup fs p = None then Inl (PathError ''remove'' p ENOENT)
      else if fmlookup fs p = Some Dir \<and> hasEntries fs p then Inl (PathError ''remove'' p ENOTEMPTY)
      else Inr (fmdrop p fs))"
  by (simp add: os_Remove_def split: option.splits node.splits)

lemma followLinks_nolink:
  "fmlookup fs p \<noteq> Some (Link t) \<Longrightarrow> (\<And>t. fmlookup fs p \<noteq> Some (Link t)) \<Longrightarrow> followLinks n fs p = Some p"
  by (cases n) (auto split: option.splits node.splits)

lemma dirError_Dir: "fmlookup fs d = Some Dir \<Longrightarrow> dirError fs d = None"
  by (simp add: dirError_def followLinks_nolink)

lemma dirError_absent:
  "fmlookup fs d = None \<Longrightarrow> d \<noteq> ''/'' \<Longrightarrow> d \<noteq> ''.'' \<Longrightarrow> dirError fs d = Some ENOENT"
  by (simp add: dirError_def followLinks_nolink)

lemma parentDir_snoc:
  assumes "CHR ''/'' \<notin> set v" and "b \<noteq> []"
  shows "parentDir (b @ CHR ''/'' # v) = b"
proof -
  have "\<forall>c \<in> set (rev v). c \<noteq> CHR ''/''"
    using assms(1) by auto
  then have "dropWhile (\<lambda>c. c \<noteq> CHR ''/'') (rev v @ CHR ''/'' # rev b) = CHR ''/'' # rev b"
    by (simp add: dropWhile_append3)
  then show ?thesis
    using assms(2) by (simp add: parentDir_def)
qed

lemma os_Symlink_cases:
  "os_Symlink fs t p =
     (if p = [] then Inl (LinkError ''symlink'' t p ENOENT)
      else (case dirError fs (parentDir p) of
              Some e \<Rightarrow> Inl (LinkError ''symlink'' t p e)
            | None \<Rightarrow>
                (if fmlookup fs p = None then Inr (fmupd p (Link t) fs)
                 else Inl (LinkError ''symlink'' t p EEXIST))))"
  by (simp add: os_Symlink_def split: option.splits)

lemma os_Symlink_Inr: "os_Symlink fs t p = Inr fs2 \<Longrightarrow> fs2 = fmupd p (Link t) fs"
  by (auto simp: os_Symlink_cases split: if_splits option.splits)

lemma os_Symlink_not_PathError: "os_Symlink fs t p \<noteq> Inl (PathError op q e)"
  by (auto simp: os_Symlink_cases split: if_splits option.splits)

lemma os_Remove_PathError: "os_Remove fs p = Inl err \<Longrightarrow> \<exists>e. err = PathError ''remove'' p e"
  by (auto simp: os_Remove_cases split: if_splits)

lemma os_Readlink_fmupd: "os_Readlink (fmupd p (Link t) fs) p = Inr t"
  by (simp add: os_Readlink_def)

lemma UserHomeDir_nonempty: "UserHomeDir h w = Inr home \<Longrightarrow> home \<noteq> []"
  by (auto simp: UserHomeDir_def Let_def split: if_splits)

lemma UserHomeDir_environ: "environ w' = environ w \<Longrightarrow> UserHomeDir h w' = UserHomeDir h w"
  by (simp add: UserHomeDir_def Getenv_def)

lemma versionRoot_home:
  "UserHomeDir h w = Inr home \<Longrightarrow> versionRoot h w v = Inr (filepath_Join [home, ''sdk'', v])"
  by (simp add: versionRoot_def)

lemma versionRoot_nohome:
  "UserHomeDir h w = Inl e \<Longrightarrow> versionRoot h w v = Inl (FailedHomeDir e)"
  by (simp add: versionRoot_def)

lemma plainName_go: "plainName ''go''"
  by (simp add: plainName_def)

lemma Join_sdk_not_Nil: "home \<noteq> [] \<Longrightarrow> filepath_Join [home, ''sdk''] \<noteq> []"
  by (simp add: filepath_Join_def Clean_not_Nil)

text \<open>The pointer is the entry \<open>go\<close> of the directory \<open>sdk\<close>.\<close>

lemma pointer_in_sdk:
  assumes "home \<noteq> []"
  shows "filepath_Join [home, ''sdk'', ''go''] = filepath_Join [home, ''sdk''] @ ''/go''"
    and "parentDir (filepath_Join [home, ''sdk'', ''go'']) = filepath_Join [home, ''sdk'']"
    and "filepath_Join [home, ''sdk'', ''go''] \<noteq> filepath_Join [home, ''sdk'']"
    and "filepath_Join [home, ''sdk'', ''go''] \<noteq> []"
proof -
  show e: "filepath_Join [home, ''sdk'', ''go''] = filepath_Join [home, ''sdk''] @ ''/go''"
    using Join_sdk_plain [OF assms plainName_go] by simp
  show "parentDir (filepath_Join [home, ''sdk'', ''go'']) = filepath_Join [home, ''sdk'']"
    unfolding e using parentDir_snoc [of "''go''" "filepath_Join [home, ''sdk'']"]
      Join_sdk_not_Nil [OF assms] by simp
  show "filepath_Join [home, ''sdk'', ''go''] \<noteq> filepath_Join [home, ''sdk'']"
    unfolding e by simp
  show "filepath_Join [home, ''sdk'', ''go''] \<noteq> []"
    unfolding e by simp
qed

text \<open>\<open>setDefaultVersion\<close> in terms of the state before the call: the attempt
  to remove the pointer leaves \<open>fs1\<close>, in which the link is then created.\<close>

lemma remove_attempt:
  "(case os_Remove fs p of Inl _ \<Rightarrow> fs | Inr fs' \<Rightarrow> fs') =
     (if fmlookup fs p = None \<or> (fmlookup fs p = Some Dir \<and> hasEntries fs p)
      then fs else fmdrop p fs)"
  by (simp add: os_Remove_cases)

lemma setDefaultVersion_eq:
  assumes "UserHomeDir h w = Inr home"
  shows "setDefaultVersion h w v =
     (let pointer = filepath_Join [home, ''sdk'', ''go''];
          goroot = filepath_Join [home, ''sdk'', v];
          fs1 = (if fmlookup (files w) pointer = None \<or>
                    (fmlookup (files w) pointer = Some Dir \<and> hasEntries (files w) pointer)
                 then files w else fmdrop pointer (files w))
      in case os_Symlink fs1 goroot pointer of
           Inl err \<Rightarrow> (Some err, w\<lparr>files := fs1\<rparr>)
         | Inr fs2 \<Rightarrow> (None, w\<lparr>files := fs2\<rparr>))"
  by (simp add: setDefaultVersion_def versionRoot_home [OF assms] remove_attempt Let_def)

lemma setDefaultVersion_dir:
  assumes "UserHomeDir h w = Inr home"
    and "fmlookup (files w) (filepath_Join [home, ''sdk'']) = Some Dir"
  shows "setDefaultVersion h w v =
     (if fmlookup (files w) (filepath_Join [home, ''sdk'', ''go'']) = Some Dir \<and>
         hasEntries (files w) (filepath_Join [home, ''sdk'', ''go''])
      then (Some (LinkError ''symlink'' (filepath_Join [home, ''sdk'', v])
                    (filepath_Join [home, ''sdk'', ''go'']) EEXIST), w)
      else (None, w\<lparr>files := fmupd (filepath_Join [home, ''sdk'', ''go''])
                     (Link (filepath_Join [home, ''sdk'', v])) (files w)\<rparr>))"
proof -
  have ne: "home \<noteq> []" using assms(1) by (rule UserHomeDir_nonempty)
  note p = pointer_in_sdk [OF ne]
  have d0: "dirError (files w) (filepath_Join [home, ''sdk'']) = None"
    using assms(2) by (rule dirError_Dir)
  have d1: "dirError (fmdrop (filepath_Join [home, ''sdk'', ''go'']) (files w))
      (filepath_Join [home, ''sdk'']) = None"
    using assms(2) p(3) by (intro dirError_Dir) simp
  show ?thesis
    unfolding setDefaultVersion_eq [OF assms(1)] Let_def
    by (auto simp: os_Symlink_cases p(2) p(4) d0 d1 fmupd_fmdrop)
qed

lemma setDefaultVersion_nodir:
  assumes "UserHomeDir h w = Inr home"
    and "dirError (files w) (filepath_Join [home, ''sdk'']) = Some e"
    and "fmlookup (files w) (filepath_Join [home, ''sdk'', ''go'']) = None"
  shows "setDefaultVersion h w v =
     (Some (LinkError ''symlink'' (filepath_Join [home, ''sdk'', v])
              (filepath_Join [home, ''sdk'', ''go'']) e), w)"
proof -
  have ne: "home \<noteq> []" using assms(1) by (rule UserHomeDir_nonempty)
  note p = pointer_in_sdk [OF ne]
  show ?thesis
    unfolding setDefaultVersion_eq [OF assms(1)] Let_def
    using assms(2,3) by (simp add: os_Symlink_cases p(2) p(4))
qed

text \<open>
  Claim C7, amended.  \<open>setDefaultVersion\<close> fails without touching the file
  system when the home directory is not known.  Otherwise it first calls
  \<open>os.Remove\<close> on the pointer and discards the result, whatever the error
  was, and then calls \<open>os.Symlink\<close> as a second operation; it fails exactly
  when that second operation fails, and never with the error of the removal.
  In terms of the state before: when \<open>sdk\<close> is a directory, the call fails if
  the pointer path holds a directory that is not empty (the removal fails, the
  link name exists, the state is unchanged) and succeeds otherwise, the
  pointer then being a link to the install directory of the version; when
  \<open>sdk\<close> cannot be looked up, so that there is no pointer either, the call
  fails with the error of that lookup and the state is unchanged.  (The file
  system of the model has no permissions; these are the ways in which it lets
  the link creation fail.)
\<close>

theorem setDefaultVersion_steps:
  "(UserHomeDir h w = Inl e \<longrightarrow> setDefaultVersion h w v = (Some (FailedHomeDir e), w)) \<and>
   (UserHomeDir h w = Inr home \<longrightarrow>
      (let pointer = filepath_Join [home, ''sdk'', ''go''];
           goroot = filepath_Join [home, ''sdk'', v];
           sdk = filepath_Join [home, ''sdk''];
           fs1 = (case os_Remove (files w) pointer of Inl _ \<Rightarrow> files w | Inr fs' \<Rightarrow> fs')
       in (\<forall>err. os_Remove (files w) pointer = Inl err \<longrightarrow>
              fst (setDefaultVersion h w v) \<noteq> Some err) \<and>
          (fst (setDefaultVersion h w v) = None \<longleftrightarrow>
              (\<exists>fs2. os_Symlink fs1 goroot pointer = Inr fs2)) \<and>
          (\<forall>err. fst (setDefaultVersion h w v) = Some err \<longrightarrow>
              os_Symlink fs1 goroot pointer = Inl err) \<and>
          (fmlookup (files w) sdk = Some Dir \<longrightarrow>
             setDefaultVersion h w v =
               (if fmlookup (files w) pointer = Some Dir \<and> hasEntries (files w) pointer
                then (Some (LinkError ''symlink'' goroot pointer EEXIST), w)
                else (None, w\<lparr>files := fmupd pointer (Link goroot) (files w)\<rparr>))) \<and>
          (\<forall>errno. dirError (files w) sdk = Some errno \<and> fmlookup (files w) pointer = None \<longrightarrow>
             setDefaultVersion h w v = (Some (LinkError ''symlink'' goroot pointer errno), w))))"
proof (intro conjI impI)
  assume "UserHomeDir h w = Inl e"
  then show "setDefaultVersion h w v = (Some (FailedHomeDir e), w)"
    by (simp add: setDefaultVersion_def versionRoot_nohome)
next
  assume hm: "UserHomeDir h w = Inr home"
  define pointer where "pointer = filepath_Join [home, ''sdk'', ''go'']"
  define goroot where "goroot = filepath_Join [home, ''sdk'', v]"
  define sdk where "sdk = filepath_Join [home, ''sdk'']"
  define fs1 where
    "fs1 = (case os_Remove (files w) pointer of Inl _ \<Rightarrow> files w | Inr fs' \<Rightarrow> fs')"
  have r: "setDefaultVersion h w v =
      (case os_Symlink fs1 goroot pointer of
         Inl err \<Rightarrow> (Some err, w\<lparr>files := fs1\<rparr>)
       | Inr fs2 \<Rightarrow> (None, w\<lparr>files := fs2\<rparr>))"
    unfolding setDefaultVersion_def versionRoot_home [OF hm] Let_def fs1_def pointer_def
      goroot_def by simp
  have a: "fst (setDefaultVersion h w v) \<noteq> Some err"
    if "os_Remove (files w) pointer = Inl err" for err
  proof -
    from that obtain en where "err = PathError ''remove'' pointer en"
      by (auto dest: os_Remove_PathError)
    then show ?thesis
      using os_Symlink_not_PathError [of fs1 goroot pointer "''remove''" pointer en]
      by (auto simp: r split: sum.splits)
  qed
  have b: "fst (setDefaultVersion h w v) = None \<longleftrightarrow>
      (\<exists>fs2. os_Symlink fs1 goroot pointer = Inr fs2)"
    by (auto simp: r split: sum.splits)
  have c: "os_Symlink fs1 goroot pointer = Inl err"
    if "fst (setDefaultVersion h w v) = Some err" for err
    using that by (auto simp: r split: sum.splits)
  have d: "setDefaultVersion h w v =
      (if fmlookup (files w) pointer = Some Dir \<and> hasEntries (files w) pointer
       then (Some (LinkError ''symlink'' goroot pointer EEXIST), w)
       else (None, w\<lparr>files := fmupd pointer (Link goroot) (files w)\<rparr>))"
    if "fmlookup (files w) sdk = Some Dir"
    using setDefaultVersion_dir [OF hm, of v] that
    by (simp add: pointer_def goroot_def sdk_def)
  have f: "setDefaultVersion h w v = (Some (LinkError ''symlink'' goroot pointer errno), w)"
    if "dirError (files w) sdk = Some errno \<and> fmlookup (files w) pointer = None" for errno
    using setDefaultVersion_nodir [OF hm, of errno v] that
    by (simp add: pointer_def goroot_def sdk_def)
  show "let pointer = filepath_Join [home, ''sdk'', ''go''];
           goroot = filepath_Join [home, ''sdk'', v];
           sdk = filepath_Join [home, ''sdk''];
           fs1 = (case os_Remove (files w) pointer of Inl _ \<Rightarrow> files w | Inr fs' \<Rightarrow> fs')
       in (\<forall>err. os_Remove (files w) pointer = Inl err \<longrightarrow>
              fst (setDefaultVersion h w v) \<noteq> Some err) \<and>
          (fst (setDefaultVersion h w v) = None \<longleftrightarrow>
              (\<exists>fs2. os_Symlink fs1 goroot pointer = Inr fs2)) \<and>
          (\<forall>err. fst (setDefaultVersion h w v) = Some err \<longrightarrow>
              os_Symlink fs1 goroot pointer = Inl err) \<and>
          (fmlookup (files w) sdk = Some Dir \<longrightarrow>
             setDefaultVersion h w v =
               (if fmlookup (files w) pointer = Some Dir \<and> hasEntries (files w) pointer
                then (Some (LinkError ''symlink'' goroot pointer EEXIST), w)
                else (None, w\<lparr>files := fmupd pointer (Link goroot) (files w)\<rparr>))) \<and>
          (\<forall>errno. dirError (files w) sdk = Some errno \<and> fmlookup (files w) pointer = None \<longrightarrow>
             setDefaultVersion h w v = (Some (LinkError ''symlink'' goroot pointer errno), w))"
    unfolding Let_def pointer_def [symmetric] goroot_def [symmetric] sdk_def [symmetric]
      fs1_def [symmetric]
    using a b c d f by blast
qed

lemma home_example: "UserHomeDir linuxHost exampleWorld = Inr ''/home/u''"
  by (simp add: UserHomeDir_def linuxHost_def exampleWorld_def Getenv_def)

lemma home_occupied: "UserHomeDir linuxHost occupiedWorld = Inr ''/home/u''"
  by (simp add: UserHomeDir_def linuxHost_def occupiedWorld_def Getenv_def)

lemma home_bare: "UserHomeDir linuxHost bareWorld = Inr ''/home/u''"
  by (simp add: UserHomeDir_def linuxHost_def bareWorld_def Getenv_def)

lemma Join_examples:
  "filepath_Join [''/home/u'', ''sdk'', ''go''] = ''/home/u/sdk/go''"
  "filepath_Join [''/home/u'', ''sdk'', ''go1.16''] = ''/home/u/sdk/go1.16''"
  "filepath_Join [''/home/u'', ''sdk'', ''go1.15''] = ''/home/u/sdk/go1.15''"
  "filepath_Join [''/home/u'', ''sdk''] = ''/home/u/sdk''"
  by (simp_all add: filepath_Join_def filepath_Clean_def cleanStep_def)

lemma hasEntries_occupied: "hasEntries (files occupiedWorld) ''/home/u/sdk/go''"
  by (simp add: hasEntries_def occupiedWorld_def below_def dirPrefix_def)

lemma os_Remove_occupied:
  "os_Remove (files occupiedWorld) ''/home/u/sdk/go''
     = Inl (PathError ''remove'' ''/home/u/sdk/go'' ENOTEMPTY)"
  using hasEntries_occupied by (simp add: os_Remove_cases) (simp add: occupiedWorld_def)

lemma sdk_examples:
  "fmlookup exampleFiles ''/home/u/sdk'' = Some Dir"
  "fmlookup (files occupiedWorld) ''/home/u/sdk'' = Some Dir"
  "dirError (files bareWorld) ''/home/u/sdk'' = Some ENOENT"
  "fmlookup (files bareWorld) ''/home/u/sdk/go'' = None"
  by (simp_all add: exampleFiles_def occupiedWorld_def bareWorld_def dirError_absent)

theorem setDefaultVersion_steps_witness:
  "UserHomeDir linuxHost exampleWorld = Inr ''/home/u'' \<and>
   fmlookup (files exampleWorld) ''/home/u/sdk'' = Some Dir \<and>
   setDefaultVersion linuxHost exampleWorld ''go1.15'' =
     (None, exampleWorld\<lparr>files := fmupd ''/home/u/sdk/go'' (Link ''/home/u/sdk/go1.15'') exampleFiles\<rparr>) \<and>
   UserHomeDir linuxHost occupiedWorld = Inr ''/home/u'' \<and>
   os_Remove (files occupiedWorld) ''/home/u/sdk/go'' = Inl (PathError ''remove'' ''/home/u/sdk/go'' ENOTEMPTY) \<and>
   setDefaultVersion linuxHost occupiedWorld ''go1.16'' =
     (Some (LinkError ''symlink'' ''/home/u/sdk/go1.16'' ''/home/u/sdk/go'' EEXIST), occupiedWorld) \<and>
   UserHomeDir linuxHost bareWorld = Inr ''/home/u'' \<and>
   dirError (files bareWorld) ''/home/u/sdk'' = Some ENOENT \<and>
   setDefaultVersion linuxHost bareWorld ''go1.16'' =
     (Some (LinkError ''symlink'' ''/home/u/sdk/go1.16'' ''/home/u/sdk/go'' ENOENT), bareWorld) \<and>
   UserHomeDir linuxHost (exampleWorld\<lparr>environ := fmempty\<rparr>) = Inl HomeNotDefined \<and>
   setDefaultVersion linuxHost (exampleWorld\<lparr>environ := fmempty\<rparr>) ''go1.15'' =
     (Some (FailedHomeDir HomeNotDefined), exampleWorld\<lparr>environ := fmempty\<rparr>)"
proof -
  have a: "fmlookup exampleFiles ''/home/u/sdk/go'' = Some (Link ''/home/u/sdk/go1.16'')"
    by (simp add: exampleFiles_def)
  have b: "fmlookup (files occupiedWorld) ''/home/u/sdk/go'' = Some Dir"
    by (simp add: occupiedWorld_def)
  have c: "UserHomeDir linuxHost (exampleWorld\<lparr>environ := fmempty\<rparr>) = Inl HomeNotDefined"
    by (simp add: UserHomeDir_def linuxHost_def Getenv_def)
  have f: "files exampleWorld = exampleFiles"
    by (simp add: exampleWorld_def)
  from setDefaultVersion_steps [of linuxHost exampleWorld HomeNotDefined "''go1.15''" "''/home/u''"]
    setDefaultVersion_steps [of linuxHost occupiedWorld HomeNotDefined "''go1.16''" "''/home/u''"]
    setDefaultVersion_steps [of linuxHost bareWorld HomeNotDefined "''go1.16''" "''/home/u''"]
    setDefaultVersion_steps [of linuxHost "exampleWorld\<lparr>environ := fmempty\<rparr>" HomeNotDefined
      "''go1.15''" "''/home/u''"]
  show ?thesis
    by (simp add: home_example home_occupied home_bare Join_examples a b c f hasEntries_occupied
        os_Remove_occupied sdk_examples Let_def)
qed

text \<open>
  Claim C7 as stated fails.  With a directory that is not empty in the place
  of the pointer, \<open>os.Remove\<close> fails with an error that is not ``does not
  exist''.  An operation that treated only ``does not exist'' as no error
  would stop with that error; \<open>setDefaultVersion\<close> goes on to \<open>os.Symlink\<close>
  and returns the error of the link creation.
\<close>

theorem setDefaultVersion_counterexample:
  "os_Remove (files occupiedWorld) ''/home/u/sdk/go''
     = Inl (PathError ''remove'' ''/home/u/sdk/go'' ENOTEMPTY) \<and>
   \<not> IsNotExist (PathError ''remove'' ''/home/u/sdk/go'' ENOTEMPTY) \<and>
   setCurrent_claimed linuxHost occupiedWorld ''go1.16''
     = (Some (PathError ''remove'' ''/home/u/sdk/go'' ENOTEMPTY), occupiedWorld) \<and>
   setDefaultVersion linuxHost occupiedWorld ''go1.16''
     = (Some (LinkError ''symlink'' ''/home/u/sdk/go1.16'' ''/home/u/sdk/go'' EEXIST), occupiedWorld)"
proof -
  have b: "fmlookup (files occupiedWorld) ''/home/u/sdk/go'' = Some Dir"
    by (simp add: occupiedWorld_def)
  have s: "fmlookup (files occupiedWorld) (filepath_Join [''/home/u'', ''sdk'']) = Some Dir"
    by (simp add: Join_examples sdk_examples)
  show ?thesis
    by (simp add: setCurrent_claimed_def setDefaultVersion_dir [OF home_occupied s]
        versionRoot_home [OF home_occupied] Join_examples os_Remove_occupied IsNotExist_def b
        hasEntries_occupied)
qed

subsection \<open>Install directories of plain names\<close>

lemma plain_last: "plainName v \<Longrightarrow> last (b @ CHR ''/'' # v) \<noteq> CHR ''/''"
proof -
  assume p: "plainName v"
  then have ne: "v \<noteq> []" and ns: "CHR ''/'' \<notin> set v"
    by (simp_all add: plainName_def)
  from ne have "last (b @ CHR ''/'' # v) = last v" by simp
  moreover from ne have "last v \<in> set v" by simp
  ultimately show ?thesis using ns by metis
qed

lemma dirPrefix_plain: "plainName v \<Longrightarrow> dirPrefix (b @ CHR ''/'' # v) = b @ CHR ''/'' # v @ ''/''"
  using plain_last [of v b] by (simp add: dirPrefix_def)

lemma prefix_sep_eq:
  "CHR ''/'' \<notin> set u \<Longrightarrow> CHR ''/'' \<notin> set v \<Longrightarrow>
     prefix (u @ CHR ''/'' # r) (v @ CHR ''/'' # s) \<Longrightarrow> u = v"
proof (induction u arbitrary: v)
  case Nil
  then show ?case by (cases v) auto
next
  case (Cons c u)
  then show ?case by (cases v) auto
qed

lemma prefix_sep_plain:
  assumes "CHR ''/'' \<notin> set u" and "prefix (v @ CHR ''/'' # r) u"
  shows False
proof -
  from assms(2) have "set (v @ CHR ''/'' # r) \<subseteq> set u"
    by (rule set_mono_prefix)
  with assms(1) show False by auto
qed

lemma not_below_plain:
  assumes "plainName u" "plainName v"
  shows "\<not> below (b @ CHR ''/'' # v) (b @ CHR ''/'' # u)"
proof
  assume "below (b @ CHR ''/'' # v) (b @ CHR ''/'' # u)"
  then have "prefix (v @ ''/'') u"
    by (simp add: below_def dirPrefix_plain [OF assms(2)])
  with assms(1) show False
    using prefix_sep_plain [of u v "[]"] by (simp add: plainName_def)
qed

lemma below_disjoint_plain:
  assumes "plainName u" "plainName v" "u \<noteq> v" and "below (b @ CHR ''/'' # u) k"
  shows "k \<noteq> b @ CHR ''/'' # v" and "\<not> below (b @ CHR ''/'' # v) k"
proof -
  show "k \<noteq> b @ CHR ''/'' # v"
    using assms not_below_plain [of v u b] by auto
  show "\<not> below (b @ CHR ''/'' # v) k"
  proof
    assume "below (b @ CHR ''/'' # v) k"
    then have pv: "prefix (b @ CHR ''/'' # v @ ''/'') k"
      by (simp add: below_def dirPrefix_plain [OF assms(2)])
    from assms(4) have pu: "prefix (b @ CHR ''/'' # u @ ''/'') k"
      by (simp add: below_def dirPrefix_plain [OF assms(1)])
    from prefix_same_cases [OF pu pv]
    have "prefix (u @ ''/'') (v @ ''/'') \<or> prefix (v @ ''/'') (u @ ''/'')" by simp
    then have "u = v"
      using prefix_sep_eq [of u v "[]" "[]"] prefix_sep_eq [of v u "[]" "[]"] assms(1,2)
      by (auto simp: plainName_def)
    with assms(3) show False by simp
  qed
qed

subsection \<open>The current version\<close>

lemma isDefault_eq:
  assumes "UserHomeDir h w = Inr home"
  shows "isDefault h w v =
     (case fmlookup (files w) (filepath_Join [home, ''sdk'', ''go'']) of
        None \<Rightarrow> Inr False
      | Some (Link t) \<Rightarrow> Inr (filepath_Join [home, ''sdk'', v] = t)
      | Some _ \<Rightarrow> Inl (Fatal (PathError ''readlink'' (filepath_Join [home, ''sdk'', ''go'']) EINVAL)))"
  by (simp add: isDefault_def versionRoot_home [OF assms] os_Readlink_def IsNotExist_def
      split: option.splits node.splits)

lemma isDefault_cong:
  assumes "environ w' = environ w"
    and "\<And>home. UserHomeDir h w = Inr home \<Longrightarrow>
       fmlookup (files w') (filepath_Join [home, ''sdk'', ''go'']) =
       fmlookup (files w) (filepath_Join [home, ''sdk'', ''go''])"
  shows "isDefault h w' v = isDefault h w v"
proof (cases "UserHomeDir h w")
  case (Inl e)
  then show ?thesis
    using UserHomeDir_environ [OF assms(1), of h]
    by (simp add: isDefault_def versionRoot_nohome)
next
  case (Inr home)
  moreover from Inr have "UserHomeDir h w' = Inr home"
    using UserHomeDir_environ [OF assms(1), of h] by simp
  ultimately show ?thesis
    using assms(2) [OF Inr] by (simp add: isDefault_eq)
qed

lemma isDefault_not_guard: "isDefault h w v \<noteq> Inl (CantRemoveDefault x)"
  by (auto simp: isDefault_def split: sum.splits if_splits)

lemma os_RemoveAll_other:
  assumes "os_RemoveAll fs p = Inr fs'" "k \<noteq> p" "\<not> below p k"
  shows "fmlookup fs' k = fmlookup fs k"
  using assms by (auto simp: os_RemoveAll_def os_Remove_cases split: if_splits)

lemma removeCmd_environ: "environ (snd (removeCmd h w args)) = environ w"
  by (auto simp: removeCmd_def Let_def split: sum.splits bool.splits)

lemma removeCmd_other:
  assumes "UserHomeDir h w = Inr home"
    and "k \<noteq> filepath_Join [home, ''sdk'', goPrefix a]"
    and "\<not> below (filepath_Join [home, ''sdk'', goPrefix a]) k"
  shows "fmlookup (files (snd (removeCmd h w [prog, cmd, a]))) k = fmlookup (files w) k"
  using assms os_RemoveAll_other [of "files w" "filepath_Join [home, ''sdk'', goPrefix a]" _ k]
  by (auto simp: removeCmd_def Let_def versionRoot_home split: sum.splits bool.splits)

lemma removeCmd_guarded:
  "isDefault h w (goPrefix a) = Inr True \<Longrightarrow>
     removeCmd h w [prog, cmd, a] = (CantRemoveDefault (goPrefix a), w)"
  by (simp add: removeCmd_def)

lemma removeCmd_guard_iff:
  "(\<exists>v. fst (removeCmd h w [prog, cmd, a]) = CantRemoveDefault v) \<longleftrightarrow>
     isDefault h w (goPrefix a) = Inr True"
  using isDefault_not_guard [of h w "goPrefix a"]
  by (auto simp: removeCmd_def Let_def split: sum.splits bool.splits)

lemma setDefaultVersion_ok:
  assumes "setDefaultVersion h w v = (None, w1)"
  obtains home where "UserHomeDir h w = Inr home"
    and "w1 = w\<lparr>files := fmupd (filepath_Join [home, ''sdk'', ''go''])
                     (Link (filepath_Join [home, ''sdk'', v])) (files w)\<rparr>"
proof (cases "UserHomeDir h w")
  case (Inl e)
  with assms show ?thesis
    by (simp add: setDefaultVersion_def versionRoot_nohome)
next
  case (Inr home)
  define pointer where "pointer = filepath_Join [home, ''sdk'', ''go'']"
  define goroot where "goroot = filepath_Join [home, ''sdk'', v]"
  define fs1 where
    "fs1 = (if fmlookup (files w) pointer = None \<or>
               (fmlookup (files w) pointer = Some Dir \<and> hasEntries (files w) pointer)
            then files w else fmdrop pointer (files w))"
  have "setDefaultVersion h w v =
      (case os_Symlink fs1 goroot pointer of
         Inl err \<Rightarrow> (Some err, w\<lparr>files := fs1\<rparr>)
       | Inr fs2 \<Rightarrow> (None, w\<lparr>files := fs2\<rparr>))"
    unfolding setDefaultVersion_eq [OF Inr] Let_def fs1_def pointer_def goroot_def by simp
  with assms obtain fs2 where s: "os_Symlink fs1 goroot pointer = Inr fs2"
    and w1: "w1 = w\<lparr>files := fs2\<rparr>"
    by (auto split: sum.splits)
  from s have "fs2 = fmupd pointer (Link goroot) fs1"
    by (rule os_Symlink_Inr)
  also have "\<dots> = fmupd pointer (Link goroot) (files w)"
    by (simp add: fs1_def fmupd_fmdrop)
  finally show ?thesis
    using that [of home] Inr w1 by (simp add: pointer_def goroot_def)
qed

text \<open>
  Claim C2.  After \<open>setDefaultVersion v\<close> has succeeded, \<open>isDefault v\<close> is
  true, and of the plain version names only \<open>v\<close> is current.  After a
  following successful \<open>setDefaultVersion v2\<close> with another name \<open>v2\<close>,
  \<open>isDefault v\<close> is false, \<open>isDefault v2\<close> is true, only \<open>v2\<close> is current,
  and the pointer is a link to the install directory of \<open>v2\<close>.
\<close>

theorem setDefaultVersion_isDefault:
  assumes "plainName v" and "plainName v2" and "v2 \<noteq> v"
    and "setDefaultVersion h w v = (None, w1)"
    and "setDefaultVersion h w1 v2 = (None, w2)"
  shows "isDefault h w1 v = Inr True \<and>
         (\<forall>u. plainName u \<and> isDefault h w1 u = Inr True \<longrightarrow> u = v) \<and>
         isDefault h w2 v = Inr False \<and>
         isDefault h w2 v2 = Inr True \<and>
         (\<forall>u. plainName u \<and> isDefault h w2 u = Inr True \<longrightarrow> u = v2) \<and>
         (\<exists>pointer goroot. versionRoot h w2 ''go'' = Inr pointer \<and>
            versionRoot h w2 v2 = Inr goroot \<and> os_Readlink (files w2) pointer = Inr goroot)"
proof -
  from assms(4) obtain home where hm: "UserHomeDir h w = Inr home"
    and w1: "w1 = w\<lparr>files := fmupd (filepath_Join [home, ''sdk'', ''go''])
                     (Link (filepath_Join [home, ''sdk'', v])) (files w)\<rparr>"
    by (rule setDefaultVersion_ok)
  have hm1: "UserHomeDir h w1 = Inr home"
    using hm UserHomeDir_environ [of w1 w h] by (simp add: w1)
  from assms(5) obtain home' where hm': "UserHomeDir h w1 = Inr home'"
    and w2': "w2 = w1\<lparr>files := fmupd (filepath_Join [home', ''sdk'', ''go''])
                     (Link (filepath_Join [home', ''sdk'', v2])) (files w1)\<rparr>"
    by (rule setDefaultVersion_ok)
  from hm1 hm' have "home' = home" by simp
  with w2' have w2: "w2 = w1\<lparr>files := fmupd (filepath_Join [home, ''sdk'', ''go''])
                     (Link (filepath_Join [home, ''sdk'', v2])) (files w1)\<rparr>" by simp
  have hm2: "UserHomeDir h w2 = Inr home"
    using hm1 UserHomeDir_environ [of w2 w1 h] by (simp add: w2)
  have ne: "home \<noteq> []" using hm by (rule UserHomeDir_nonempty)
  have d1: "isDefault h w1 u = Inr (filepath_Join [home, ''sdk'', u] = filepath_Join [home, ''sdk'', v])" for u
    using isDefault_eq [OF hm1, of u] by (simp add: w1)
  have d2: "isDefault h w2 u = Inr (filepath_Join [home, ''sdk'', u] = filepath_Join [home, ''sdk'', v2])" for u
    using isDefault_eq [OF hm2, of u] by (simp add: w2)
  have inj: "filepath_Join [home, ''sdk'', x] = filepath_Join [home, ''sdk'', y] \<longleftrightarrow> x = y"
    if "plainName x" "plainName y" for x y
    using Join_sdk_inj [OF ne that] .
  have r: "os_Readlink (files w2) (filepath_Join [home, ''sdk'', ''go'']) = Inr (filepath_Join [home, ''sdk'', v2])"
    by (simp add: w2 os_Readlink_fmupd)
  show ?thesis
    using assms(1-3) r by (auto simp: d1 d2 inj versionRoot_home [OF hm2])
qed

text \<open>
  What the guard of \<open>removeCmd\<close> does achieve.  The command ends with
  ``can't remove default version'' exactly when \<open>isDefault\<close> is true of the
  normalised version, and then nothing has been changed: the guard comes
  before any deletion.  When the normalised version is a plain name other than
  \<open>go\<close>, the command leaves the pointer as it was, so \<open>isDefault\<close> answers
  as before for every version, and the install directory of a current version
  with a plain name survives with everything below it.  (Names are compared
  byte for byte, as the model of the file system compares them.)
\<close>

lemma removeCmd_guard:
  "((\<exists>v. fst (removeCmd h w [prog, cmd, a]) = CantRemoveDefault v) \<longleftrightarrow>
       isDefault h w (goPrefix a) = Inr True) \<and>
   (isDefault h w (goPrefix a) = Inr True \<longrightarrow>
       removeCmd h w [prog, cmd, a] = (CantRemoveDefault (goPrefix a), w)) \<and>
   (UserHomeDir h w = Inr home \<and> plainName (goPrefix a) \<and> goPrefix a \<noteq> ''go'' \<longrightarrow>
      (let w' = snd (removeCmd h w [prog, cmd, a])
       in fmlookup (files w') (filepath_Join [home, ''sdk'', ''go'']) =
            fmlookup (files w) (filepath_Join [home, ''sdk'', ''go'']) \<and>
          (\<forall>x. isDefault h w' x = isDefault h w x) \<and>
          (\<forall>u k. plainName u \<and> isDefault h w u = Inr True \<and>
                 (k = filepath_Join [home, ''sdk'', u] \<or> below (filepath_Join [home, ''sdk'', u]) k)
                 \<longrightarrow> fmlookup (files w') k = fmlookup (files w) k)))"
proof (intro conjI impI)
  show "(\<exists>v. fst (removeCmd h w [prog, cmd, a]) = CantRemoveDefault v) \<longleftrightarrow>
       isDefault h w (goPrefix a) = Inr True"
    by (rule removeCmd_guard_iff)
next
  assume "isDefault h w (goPrefix a) = Inr True"
  then show "removeCmd h w [prog, cmd, a] = (CantRemoveDefault (goPrefix a), w)"
    by (rule removeCmd_guarded)
next
  assume "UserHomeDir h w = Inr home \<and> plainName (goPrefix a) \<and> goPrefix a \<noteq> ''go''"
  then have hm: "UserHomeDir h w = Inr home" and pl: "plainName (goPrefix a)"
    and ng: "goPrefix a \<noteq> ''go''" by simp_all
  define w' where "w' = snd (removeCmd h w [prog, cmd, a])"
  define b where "b = filepath_Join [home, ''sdk'']"
  have ne: "home \<noteq> []" using hm by (rule UserHomeDir_nonempty)
  have J: "filepath_Join [home, ''sdk'', x] = b @ CHR ''/'' # x" if "plainName x" for x
    unfolding b_def using ne that by (rule Join_sdk_plain)
  have other: "fmlookup (files w') k = fmlookup (files w) k"
    if "k \<noteq> b @ CHR ''/'' # goPrefix a" "\<not> below (b @ CHR ''/'' # goPrefix a) k" for k
    unfolding w'_def using removeCmd_other [OF hm, of k a prog cmd] that by (simp add: J [OF pl])
  have ptr: "fmlookup (files w') (filepath_Join [home, ''sdk'', ''go'']) =
            fmlookup (files w) (filepath_Join [home, ''sdk'', ''go''])"
    unfolding J [OF plainName_go]
    using ng not_below_plain [OF plainName_go pl, of b] by (intro other) simp_all
  have env: "environ w' = environ w"
    unfolding w'_def by (rule removeCmd_environ)
  have same: "isDefault h w' x = isDefault h w x" for x
  proof (rule isDefault_cong [OF env])
    fix home' assume "UserHomeDir h w = Inr home'"
    with hm have "home' = home" by simp
    with ptr show "fmlookup (files w') (filepath_Join [home', ''sdk'', ''go'']) =
       fmlookup (files w) (filepath_Join [home', ''sdk'', ''go''])" by simp
  qed
  have keep: "fmlookup (files w') k = fmlookup (files w) k"
    if u: "plainName u" and cur: "isDefault h w u = Inr True"
      and k: "k = filepath_Join [home, ''sdk'', u] \<or> below (filepath_Join [home, ''sdk'', u]) k"
    for u k
  proof (cases "u = goPrefix a")
    case True
    with cur have "removeCmd h w [prog, cmd, a] = (CantRemoveDefault (goPrefix a), w)"
      by (simp add: removeCmd_guarded)
    then show ?thesis by (simp add: w'_def)
  next
    case False
    from k have k': "k = b @ CHR ''/'' # u \<or> below (b @ CHR ''/'' # u) k"
      by (simp add: J [OF u])
    show ?thesis
    proof (rule other)
      show "k \<noteq> b @ CHR ''/'' # goPrefix a"
        using k' False below_disjoint_plain(1) [OF u pl False, of b k] by auto
      show "\<not> below (b @ CHR ''/'' # goPrefix a) k"
        using k' False below_disjoint_plain(2) [OF u pl False, of b k]
          not_below_plain [OF u pl, of b] by auto
    qed
  qed
  show "let w' = snd (removeCmd h w [prog, cmd, a])
       in fmlookup (files w') (filepath_Join [home, ''sdk'', ''go'']) =
            fmlookup (files w) (filepath_Join [home, ''sdk'', ''go'']) \<and>
          (\<forall>x. isDefault h w' x = isDefault h w x) \<and>
          (\<forall>u k. plainName u \<and> isDefault h w u = Inr True \<and>
                 (k = filepath_Join [home, ''sdk'', u] \<or> below (filepath_Join [home, ''sdk'', u]) k)
                 \<longrightarrow> fmlookup (files w') k = fmlookup (files w) k)"
    unfolding Let_def w'_def [symmetric] using ptr same keep by blast
qed

text \<open>
  Claim C10.  When the version is not current and nothing exists at its
  install directory, \<open>removeCmd\<close> reports the version as removed and changes
  nothing: \<open>os.RemoveAll\<close> of a path that does not exist succeeds.  (The
  path \<open>.\<close>, which \<open>os.RemoveAll\<close> refuses, is the working directory and
  always exists.)
\<close>

theorem removeCmd_absent:
  assumes "UserHomeDir h w = Inr home"
    and "isDefault h w (goPrefix a) = Inr False"
    and "fmlookup (files w) (filepath_Join [home, ''sdk'', goPrefix a]) = None"
    and "filepath_Join [home, ''sdk'', goPrefix a] \<noteq> ''.''"
  shows "removeCmd h w [prog, cmd, a] = (Removed (goPrefix a), w)"
proof -
  have ne: "home \<noteq> []" using assms(1) by (rule UserHomeDir_nonempty)
  define goroot where "goroot = filepath_Join [home, ''sdk'', goPrefix a]"
  have c: "goroot = filepath_Clean (home @ CHR ''/'' # ''sdk'' @ CHR ''/'' # goPrefix a)"
    unfolding goroot_def using ne by (rule Join3_Clean)
  have "goroot \<noteq> []" unfolding c by (rule Clean_not_Nil)
  moreover have "\<not> endsWithDot goroot"
    using assms(4) unfolding goroot_def [symmetric] c Clean_endsWithDot .
  ultimately have "os_RemoveAll (files w) goroot = Inr (files w)"
    using assms(3) by (simp add: os_RemoveAll_def os_Remove_cases IsNotExist_def goroot_def)
  then show ?thesis
    using assms(2) by (simp add: removeCmd_def versionRoot_home [OF assms(1)] goroot_def)
qed

lemma plain_examples: "plainName ''go1.15''" "plainName ''go1.16''" "plainName ''go1.14''"
  by (simp_all add: plainName_def)

lemma goPrefix_examples:
  "goPrefix ''1.16'' = ''go1.16''" "goPrefix ''1.15'' = ''go1.15''" "goPrefix ''1.14'' = ''go1.14''"
  "goPrefix ''go'' = ''go''" "goPrefix ''go1.16/..'' = ''go1.16/..''"
  by (simp_all add: goPrefix_def HasPrefix_def)

lemma files_example: "files exampleWorld = exampleFiles"
  by (simp add: exampleWorld_def)

lemma pointer_example: "fmlookup exampleFiles ''/home/u/sdk/go'' = Some (Link ''/home/u/sdk/go1.16'')"
  by (simp add: exampleFiles_def)

lemma isDefault_example:
  "isDefault linuxHost exampleWorld v = Inr (filepath_Join [''/home/u'', ''sdk'', v] = ''/home/u/sdk/go1.16'')"
  by (simp add: isDefault_eq [OF home_example] Join_examples files_example pointer_example)

theorem setDefaultVersion_isDefault_witness:
  "plainName ''go1.15'' \<and> plainName ''go1.16'' \<and>
   setDefaultVersion linuxHost exampleWorld ''go1.15'' =
     (None, exampleWorld\<lparr>files := fmupd ''/home/u/sdk/go'' (Link ''/home/u/sdk/go1.15'') exampleFiles\<rparr>) \<and>
   setDefaultVersion linuxHost
       (exampleWorld\<lparr>files := fmupd ''/home/u/sdk/go'' (Link ''/home/u/sdk/go1.15'') exampleFiles\<rparr>)
       ''go1.16'' =
     (None, exampleWorld\<lparr>files := fmupd ''/home/u/sdk/go'' (Link ''/home/u/sdk/go1.16'')
              (fmupd ''/home/u/sdk/go'' (Link ''/home/u/sdk/go1.15'') exampleFiles)\<rparr>) \<and>
   isDefault linuxHost
       (exampleWorld\<lparr>files := fmupd ''/home/u/sdk/go'' (Link ''/home/u/sdk/go1.15'') exampleFiles\<rparr>)
       ''go1.15'' = Inr True \<and>
   isDefault linuxHost
       (exampleWorld\<lparr>files := fmupd ''/home/u/sdk/go'' (Link ''/home/u/sdk/go1.16'')
              (fmupd ''/home/u/sdk/go'' (Link ''/home/u/sdk/go1.15'') exampleFiles)\<rparr>)
       ''go1.15'' = Inr False \<and>
   isDefault linuxHost
       (exampleWorld\<lparr>files := fmupd ''/home/u/sdk/go'' (Link ''/home/u/sdk/go1.16'')
              (fmupd ''/home/u/sdk/go'' (Link ''/home/u/sdk/go1.15'') exampleFiles)\<rparr>)
       ''go1.16'' = Inr True"
proof -
  define w1 where
    "w1 = exampleWorld\<lparr>files := fmupd ''/home/u/sdk/go'' (Link ''/home/u/sdk/go1.15'') exampleFiles\<rparr>"
  define w2 where
    "w2 = exampleWorld\<lparr>files := fmupd ''/home/u/sdk/go'' (Link ''/home/u/sdk/go1.16'')
              (fmupd ''/home/u/sdk/go'' (Link ''/home/u/sdk/go1.15'') exampleFiles)\<rparr>"
  have h1: "UserHomeDir linuxHost w1 = Inr ''/home/u''"
    using UserHomeDir_environ [of w1 exampleWorld linuxHost] by (simp add: w1_def home_example)
  have d0: "fmlookup (files exampleWorld) (filepath_Join [''/home/u'', ''sdk'']) = Some Dir"
    by (simp add: Join_examples files_example sdk_examples)
  have d1: "fmlookup (files w1) (filepath_Join [''/home/u'', ''sdk'']) = Some Dir"
    by (simp add: Join_examples w1_def sdk_examples)
  have s1: "setDefaultVersion linuxHost exampleWorld ''go1.15'' = (None, w1)"
    by (simp add: setDefaultVersion_dir [OF home_example d0] Join_examples files_example
        pointer_example w1_def)
  have s2: "setDefaultVersion linuxHost w1 ''go1.16'' = (None, w2)"
    by (simp add: setDefaultVersion_dir [OF h1 d1] Join_examples) (simp add: w1_def w2_def)
  have ne: "''go1.16'' \<noteq> ''go1.15''" by simp
  from setDefaultVersion_isDefault [OF plain_examples(1) plain_examples(2) ne s1 s2] s1 s2
  show ?thesis
    unfolding w1_def w2_def using plain_examples by simp
qed

lemma RemoveAll_examples:
  "os_RemoveAll exampleFiles ''/home/u/sdk/go1.15'' = Inr (fmdrop ''/home/u/sdk/go1.15'' exampleFiles)"
  "os_RemoveAll exampleFiles ''/home/u/sdk/go'' = Inr (fmdrop ''/home/u/sdk/go'' exampleFiles)"
  "os_RemoveAll exampleFiles ''/home/u/sdk'' =
     Inr (fmfilter (\<lambda>k. \<not> (k = ''/home/u/sdk'' \<or> below ''/home/u/sdk'' k)) exampleFiles)"
proof -
  have e: "\<not> hasEntries exampleFiles ''/home/u/sdk/go1.15''"
    by (simp add: hasEntries_def exampleFiles_def below_def dirPrefix_def)
  have l: "fmlookup exampleFiles ''/home/u/sdk/go1.15'' = Some Dir"
    by (simp add: exampleFiles_def)
  show "os_RemoveAll exampleFiles ''/home/u/sdk/go1.15'' = Inr (fmdrop ''/home/u/sdk/go1.15'' exampleFiles)"
    by (simp add: os_RemoveAll_def endsWithDot_def suffix_Cons os_Remove_cases e l)
  show "os_RemoveAll exampleFiles ''/home/u/sdk/go'' = Inr (fmdrop ''/home/u/sdk/go'' exampleFiles)"
    by (simp add: os_RemoveAll_def endsWithDot_def suffix_Cons os_Remove_cases pointer_example)
  have he: "hasEntries exampleFiles ''/home/u/sdk''"
    by (simp add: hasEntries_def exampleFiles_def below_def dirPrefix_def)
  have sd: "fmlookup exampleFiles ''/home/u/sdk'' = Some Dir"
    by (simp add: exampleFiles_def)
  show "os_RemoveAll exampleFiles ''/home/u/sdk'' =
     Inr (fmfilter (\<lambda>k. \<not> (k = ''/home/u/sdk'' \<or> below ''/home/u/sdk'' k)) exampleFiles)"
    by (simp add: os_RemoveAll_def endsWithDot_def suffix_Cons os_Remove_cases he sd IsNotExist_def)
qed

lemma removeCmd_guard_example:
  "isDefault linuxHost exampleWorld (goPrefix ''1.16'') = Inr True \<and>
   removeCmd linuxHost exampleWorld [''getgo'', ''remove'', ''1.16''] =
     (CantRemoveDefault ''go1.16'', exampleWorld) \<and>
   UserHomeDir linuxHost exampleWorld = Inr ''/home/u'' \<and>
   plainName (goPrefix ''1.15'') \<and> goPrefix ''1.15'' \<noteq> ''go'' \<and> plainName ''go1.16'' \<and>
   fst (removeCmd linuxHost exampleWorld [''getgo'', ''remove'', ''1.15'']) = Removed ''go1.15'' \<and>
   fmlookup (files (snd (removeCmd linuxHost exampleWorld [''getgo'', ''remove'', ''1.15''])))
      ''/home/u/sdk/go1.15'' = None \<and>
   fmlookup (files (snd (removeCmd linuxHost exampleWorld [''getgo'', ''remove'', ''1.15''])))
      ''/home/u/sdk/go'' = Some (Link ''/home/u/sdk/go1.16'') \<and>
   fmlookup (files (snd (removeCmd linuxHost exampleWorld [''getgo'', ''remove'', ''1.15''])))
      ''/home/u/sdk/go1.16'' = Some Dir \<and>
   isDefault linuxHost (snd (removeCmd linuxHost exampleWorld [''getgo'', ''remove'', ''1.15'']))
      ''go1.16'' = Inr True"
proof -
  have cur: "isDefault linuxHost exampleWorld ''go1.16'' = Inr True"
    by (simp add: isDefault_example Join_examples)
  have oth: "isDefault linuxHost exampleWorld ''go1.15'' = Inr False"
    by (simp add: isDefault_example Join_examples)
  have rm: "removeCmd linuxHost exampleWorld [''getgo'', ''remove'', ''1.15''] =
      (Removed ''go1.15'', exampleWorld\<lparr>files := fmdrop ''/home/u/sdk/go1.15'' exampleFiles\<rparr>)"
    by (simp add: removeCmd_def Let_def goPrefix_examples oth versionRoot_home [OF home_example]
        Join_examples files_example RemoveAll_examples)
  have b: "below ''/home/u/sdk/go1.16'' ''/home/u/sdk/go1.16/bin''"
    by (simp add: below_def dirPrefix_def)
  from removeCmd_guard [of linuxHost exampleWorld "''getgo''" "''remove''" "''1.16''" "''/home/u''"]
    removeCmd_guard [of linuxHost exampleWorld "''getgo''" "''remove''" "''1.15''" "''/home/u''"]
  show ?thesis
    using cur plain_examples
    by (simp add: goPrefix_examples home_example Join_examples Let_def files_example
        pointer_example rm) (simp add: exampleFiles_def)
qed

text \<open>
  Claim C1.  The version that the current pointer points to is never to be
  deleted through \<open>remove\<close>, and a \<open>remove\<close> that deletes is to leave the
  pointer as it is.  The guard of \<open>removeCmd\<close> does not achieve this: it
  compares the path made from the argument with the target of the pointer and
  checks nothing else.  With \<open>go1.16\<close> current, \<open>remove go1.16/..\<close> names
  the directory \<open>sdk\<close>, passes the guard and deletes the install directory of
  the current version with everything else; \<open>remove go\<close>, and \<open>remove\<close>
  with an empty argument, name the pointer itself and delete it, so that no
  version is current afterwards.
\<close>

theorem removeCmd_deletes_current:
  "isDefault linuxHost exampleWorld ''go1.16'' = Inr True \<and>
   fst (removeCmd linuxHost exampleWorld [''getgo'', ''remove'', ''go'']) = Removed ''go'' \<and>
   removeCmd linuxHost exampleWorld [''getgo'', ''remove'', '''']
     = removeCmd linuxHost exampleWorld [''getgo'', ''remove'', ''go''] \<and>
   isDefault linuxHost (snd (removeCmd linuxHost exampleWorld [''getgo'', ''remove'', ''go'']))
      ''go1.16'' = Inr False \<and>
   fmlookup (files exampleWorld) ''/home/u/sdk/go1.16'' = Some Dir \<and>
   fst (removeCmd linuxHost exampleWorld [''getgo'', ''remove'', ''go1.16/..'']) = Removed ''go1.16/..'' \<and>
   fmlookup (files (snd (removeCmd linuxHost exampleWorld [''getgo'', ''remove'', ''go1.16/..''])))
      ''/home/u/sdk/go1.16'' = None"
proof -
  have cur: "isDefault linuxHost exampleWorld ''go1.16'' = Inr True"
    by (simp add: isDefault_example Join_examples)
  have j: "filepath_Join [''/home/u'', ''sdk'', ''go1.16/..''] = ''/home/u/sdk''"
    by (simp add: filepath_Join_def filepath_Clean_def cleanStep_def)
  have d1: "isDefault linuxHost exampleWorld ''go'' = Inr False"
    by (simp add: isDefault_example Join_examples)
  have d2: "isDefault linuxHost exampleWorld ''go1.16/..'' = Inr False"
    by (simp add: isDefault_example j)
  have r1: "removeCmd linuxHost exampleWorld [''getgo'', ''remove'', ''go''] =
      (Removed ''go'', exampleWorld\<lparr>files := fmdrop ''/home/u/sdk/go'' exampleFiles\<rparr>)"
    by (simp add: removeCmd_def Let_def goPrefix_examples d1 versionRoot_home [OF home_example]
        Join_examples files_example RemoveAll_examples)
  have r0: "removeCmd linuxHost exampleWorld [''getgo'', ''remove'', ''''] =
      removeCmd linuxHost exampleWorld [''getgo'', ''remove'', ''go'']"
    by (simp add: removeCmd_def goPrefix_def HasPrefix_def)
  have r2: "removeCmd linuxHost exampleWorld [''getgo'', ''remove'', ''go1.16/..''] =
      (Removed ''go1.16/..'', exampleWorld\<lparr>files :=
         fmfilter (\<lambda>k. \<not> (k = ''/home/u/sdk'' \<or> below ''/home/u/sdk'' k)) exampleFiles\<rparr>)"
    by (simp add: removeCmd_def Let_def goPrefix_examples d2 versionRoot_home [OF home_example]
        j files_example RemoveAll_examples)
  have h1: "UserHomeDir linuxHost (exampleWorld\<lparr>files := fmdrop ''/home/u/sdk/go'' exampleFiles\<rparr>)
      = Inr ''/home/u''"
    using UserHomeDir_environ [of "exampleWorld\<lparr>files := fmdrop ''/home/u/sdk/go'' exampleFiles\<rparr>"
        exampleWorld linuxHost] by (simp add: home_example)
  have b: "below ''/home/u/sdk'' ''/home/u/sdk/go1.16''"
    by (simp add: below_def dirPrefix_def)
  show ?thesis
    by (simp add: cur r0 r1 r2 isDefault_eq [OF h1] Join_examples files_example b)
      (simp add: exampleFiles_def)
qed

lemma absent_example: "fmlookup (files exampleWorld) ''/home/u/sdk/go1.14'' = None"
  by (simp add: exampleWorld_def exampleFiles_def)

lemma Join_example_114: "filepath_Join [''/home/u'', ''sdk'', ''go1.14''] = ''/home/u/sdk/go1.14''"
  by (simp add: filepath_Join_def filepath_Clean_def cleanStep_def)

theorem removeCmd_absent_witness:
  "UserHomeDir linuxHost exampleWorld = Inr ''/home/u'' \<and>
   isDefault linuxHost exampleWorld (goPrefix ''1.14'') = Inr False \<and>
   fmlookup (files exampleWorld) (filepath_Join [''/home/u'', ''sdk'', goPrefix ''1.14'']) = None \<and>
   removeCmd linuxHost exampleWorld [''getgo'', ''remove'', ''1.14''] = (Removed ''go1.14'', exampleWorld)"
proof -
  have d: "isDefault linuxHost exampleWorld (goPrefix ''1.14'') = Inr False"
    by (simp add: isDefault_example goPrefix_examples Join_example_114)
  have a: "fmlookup (files exampleWorld) (filepath_Join [''/home/u'', ''sdk'', goPrefix ''1.14'']) = None"
    by (simp add: goPrefix_examples Join_example_114 absent_example)
  have n: "filepath_Join [''/home/u'', ''sdk'', goPrefix ''1.14''] \<noteq> ''.''"
    by (simp add: goPrefix_examples Join_example_114)
  from removeCmd_absent [OF home_example d a n, of "''getgo''" "''remove''"] d a
  show ?thesis by (simp add: home_example goPrefix_examples)
qed

lemma isDefault_Inl: "isDefault h w v = Inl f \<Longrightarrow> \<exists>err. f = Fatal err"
  by (auto simp: isDefault_def split: sum.splits if_splits)

lemma removeCmd_names:
  assumes "fst (removeCmd h w [prog, cmd, v]) = Removed x \<or>
           fst (removeCmd h w [prog, cmd, v]) = CantRemoveDefault x \<or>
           (\<exists>err. fst (removeCmd h w [prog, cmd, v]) = RemoveFailed x err)"
  shows "x = goPrefix v"
proof (cases "isDefault h w (goPrefix v)")
  case (Inl f)
  then obtain err where "f = Fatal err" by (auto dest: isDefault_Inl)
  with Inl assms show ?thesis by (auto simp: removeCmd_def)
next
  case (Inr b)
  with assms show ?thesis
    by (cases b) (auto simp: removeCmd_def Let_def split: sum.splits)
qed

lemma removeCmd_unguarded_eq:
  assumes "UserHomeDir h w = Inr home" and "isDefault h w (goPrefix v) = Inr False"
  shows "removeCmd h w [prog, cmd, v] =
     (case os_RemoveAll (files w) (filepath_Join [home, ''sdk'', goPrefix v]) of
        Inl err \<Rightarrow> (RemoveFailed (goPrefix v) err, w)
      | Inr fs' \<Rightarrow> (Removed (goPrefix v), w\<lparr>files := fs'\<rparr>))"
  using assms by (simp add: removeCmd_def Let_def versionRoot_home)

lemma installTarget_explicit:
  assumes "ToLower v \<notin> {''up'', ''latest'', ''update''}"
  shows "\<exists>CL. installTarget h fetched [prog, v] = Inr (goPrefix (ToLower v), CL)"
  using assms by (auto simp: installTarget_def installSwitch_def Let_def)

text \<open>
  Claim C4.  Prefixing \<open>go\<close> to a specifier that does not start with it is
  idempotent, and its result always starts with \<open>go\<close>.  \<open>removeCmd\<close>
  applies it to its argument: normalising the argument beforehand changes
  nothing, the version named in its messages is the normalised one, the guard
  is asked about the normalised version, and the directory removed is the
  install directory of the normalised version.  \<open>installCmd\<close> applies it as
  well: every version that its prefix hands on has been through it, and an
  explicit specifier is handed on lower-cased and normalised.  \<open>1.15\<close> and
  \<open>go1.15\<close> name the same version for both.
\<close>

theorem goPrefix_idempotent:
  "goPrefix (goPrefix v) = goPrefix v \<and>
   HasPrefix (goPrefix v) ''go'' \<and>
   removeCmd h w [prog, cmd, v] = removeCmd h w [prog, cmd, goPrefix v] \<and>
   (\<forall>x. fst (removeCmd h w [prog, cmd, v]) = Removed x \<or>
        fst (removeCmd h w [prog, cmd, v]) = CantRemoveDefault x \<or>
        (\<exists>err. fst (removeCmd h w [prog, cmd, v]) = RemoveFailed x err) \<longrightarrow> x = goPrefix v) \<and>
   (fst (removeCmd h w [prog, cmd, v]) = CantRemoveDefault (goPrefix v) \<longleftrightarrow>
      isDefault h w (goPrefix v) = Inr True) \<and>
   (UserHomeDir h w = Inr home \<and> isDefault h w (goPrefix v) = Inr False \<longrightarrow>
      removeCmd h w [prog, cmd, v] =
        (case os_RemoveAll (files w) (filepath_Join [home, ''sdk'', goPrefix v]) of
           Inl err \<Rightarrow> (RemoveFailed (goPrefix v) err, w)
         | Inr fs' \<Rightarrow> (Removed (goPrefix v), w\<lparr>files := fs'\<rparr>))) \<and>
   (\<forall>version CL. installTarget h fetched args = Inr (version, CL) \<longrightarrow>
      HasPrefix version ''go'' \<and> goPrefix version = version) \<and>
   (ToLower v \<notin> {''up'', ''latest'', ''update''} \<longrightarrow>
      (\<exists>CL. installTarget h fetched [prog, v] = Inr (goPrefix (ToLower v), CL))) \<and>
   goPrefix ''1.15'' = ''go1.15'' \<and> goPrefix ''go1.15'' = ''go1.15'' \<and>
   installTarget h fetched [prog, ''1.15''] = installTarget h fetched [prog, ''go1.15'']"
proof -
  have idem: "goPrefix (goPrefix v) = goPrefix v" for v
    by (simp add: goPrefix_fixed goPrefix_HasPrefix)
  have inv: "removeCmd h w [prog, cmd, v] = removeCmd h w [prog, cmd, goPrefix v]"
    by (simp add: removeCmd_def idem)
  have names: "x = goPrefix v"
    if "fst (removeCmd h w [prog, cmd, v]) = Removed x \<or>
        fst (removeCmd h w [prog, cmd, v]) = CantRemoveDefault x \<or>
        (\<exists>err. fst (removeCmd h w [prog, cmd, v]) = RemoveFailed x err)" for x
    using that by (rule removeCmd_names)
  have guard: "fst (removeCmd h w [prog, cmd, v]) = CantRemoveDefault (goPrefix v) \<longleftrightarrow>
      isDefault h w (goPrefix v) = Inr True"
  proof
    assume "fst (removeCmd h w [prog, cmd, v]) = CantRemoveDefault (goPrefix v)"
    then have "\<exists>x. fst (removeCmd h w [prog, cmd, v]) = CantRemoveDefault x" ..
    then show "isDefault h w (goPrefix v) = Inr True"
      by (simp add: removeCmd_guard_iff)
  next
    assume "isDefault h w (goPrefix v) = Inr True"
    then show "fst (removeCmd h w [prog, cmd, v]) = CantRemoveDefault (goPrefix v)"
      by (simp add: removeCmd_guarded)
  qed
  have dir: "removeCmd h w [prog, cmd, v] =
        (case os_RemoveAll (files w) (filepath_Join [home, ''sdk'', goPrefix v]) of
           Inl err \<Rightarrow> (RemoveFailed (goPrefix v) err, w)
         | Inr fs' \<Rightarrow> (Removed (goPrefix v), w\<lparr>files := fs'\<rparr>))"
    if "UserHomeDir h w = Inr home \<and> isDefault h w (goPrefix v) = Inr False"
    using that removeCmd_unguarded_eq [of h w home v prog cmd] by simp
  have inst: "HasPrefix version ''go'' \<and> goPrefix version = version"
    if "installTarget h fetched args = Inr (version, CL)" for version CL
  proof -
    from that obtain x where "version = goPrefix x"
      by (auto simp: installTarget_def Let_def split: if_splits sum.splits)
    then show ?thesis by (simp add: idem goPrefix_HasPrefix)
  qed
  have expl: "\<exists>CL. installTarget h fetched [prog, v] = Inr (goPrefix (ToLower v), CL)"
    if "ToLower v \<notin> {''up'', ''latest'', ''update''}"
    using that by (rule installTarget_explicit)
  have ex: "installTarget h fetched [prog, ''1.15''] = installTarget h fetched [prog, ''go1.15'']"
    by (simp add: installTarget_def installSwitch_def ToLower_def lowerChar_def goPrefix_def HasPrefix_def)
  have e1: "goPrefix ''1.15'' = ''go1.15''" and e2: "goPrefix ''go1.15'' = ''go1.15''"
    by (simp_all add: goPrefix_def HasPrefix_def)
  show ?thesis
    using idem [of v] goPrefix_HasPrefix [of v] inv names guard dir inst expl ex e1 e2
    by blast
qed

theorem goPrefix_idempotent_witness:
  "UserHomeDir linuxHost exampleWorld = Inr ''/home/u'' \<and>
   isDefault linuxHost exampleWorld (goPrefix ''1.15'') = Inr False \<and>
   removeCmd linuxHost exampleWorld [''getgo'', ''remove'', ''1.15''] =
     (Removed ''go1.15'', exampleWorld\<lparr>files := fmdrop ''/home/u/sdk/go1.15'' exampleFiles\<rparr>) \<and>
   removeCmd linuxHost exampleWorld [''getgo'', ''remove'', ''go1.15''] =
     (Removed ''go1.15'', exampleWorld\<lparr>files := fmdrop ''/home/u/sdk/go1.15'' exampleFiles\<rparr>) \<and>
   isDefault linuxHost exampleWorld (goPrefix ''1.16'') = Inr True \<and>
   fst (removeCmd linuxHost exampleWorld [''getgo'', ''remove'', ''1.16'']) = CantRemoveDefault ''go1.16'' \<and>
   ToLower ''1.15'' \<notin> {''up'', ''latest'', ''update''} \<and>
   installTarget linuxHost (Inr exampleCatalog) [''getgo'', ''1.15''] = Inr (''go1.15'', '''') \<and>
   HasPrefix ''go1.15'' ''go'' \<and> goPrefix ''go1.15'' = ''go1.15'' \<and>
   goPrefix (goPrefix ''1.15'') = goPrefix ''1.15''"
proof -
  have t: "installTarget linuxHost (Inr exampleCatalog) [''getgo'', ''1.15''] = Inr (''go1.15'', '''')"
    by (simp add: installTarget_def installSwitch_def ToLower_def lowerChar_def goPrefix_def
        HasPrefix_def)
  have l: "ToLower ''1.15'' \<notin> {''up'', ''latest'', ''update''}"
    by (simp add: ToLower_def lowerChar_def)
  have d15: "isDefault linuxHost exampleWorld (goPrefix ''1.15'') = Inr False"
    by (simp add: isDefault_example goPrefix_examples Join_examples)
  have d16: "isDefault linuxHost exampleWorld (goPrefix ''1.16'') = Inr True"
    by (simp add: isDefault_example goPrefix_examples Join_examples)
  note T15 = goPrefix_idempotent [where v = "''1.15''" and h = linuxHost and w = exampleWorld
      and prog = "''getgo''" and cmd = "''remove''" and home = "''/home/u''"
      and fetched = "Inr exampleCatalog" and args = "[''getgo'', ''1.15'']"]
  note T16 = goPrefix_idempotent [where v = "''1.16''" and h = linuxHost and w = exampleWorld
      and prog = "''getgo''" and cmd = "''remove''" and home = "''/home/u''"
      and fetched = "Inr exampleCatalog" and args = "[''getgo'', ''1.15'']"]
  from T15 have idem: "goPrefix (goPrefix ''1.15'') = goPrefix ''1.15''"
    by (rule conjunct1)
  from T15 have inv: "removeCmd linuxHost exampleWorld [''getgo'', ''remove'', ''1.15''] =
      removeCmd linuxHost exampleWorld [''getgo'', ''remove'', goPrefix ''1.15'']"
    by (elim conjE)
  from T15 have "UserHomeDir linuxHost exampleWorld = Inr ''/home/u'' \<and>
      isDefault linuxHost exampleWorld (goPrefix ''1.15'') = Inr False \<longrightarrow>
      removeCmd linuxHost exampleWorld [''getgo'', ''remove'', ''1.15''] =
        (case os_RemoveAll (files exampleWorld) (filepath_Join [''/home/u'', ''sdk'', goPrefix ''1.15'']) of
           Inl err \<Rightarrow> (RemoveFailed (goPrefix ''1.15'') err, exampleWorld)
         | Inr fs' \<Rightarrow> (Removed (goPrefix ''1.15''), exampleWorld\<lparr>files := fs'\<rparr>))"
    by (elim conjE)
  with home_example d15
  have r15: "removeCmd linuxHost exampleWorld [''getgo'', ''remove'', ''1.15''] =
      (Removed ''go1.15'', exampleWorld\<lparr>files := fmdrop ''/home/u/sdk/go1.15'' exampleFiles\<rparr>)"
    by (simp add: goPrefix_examples Join_examples files_example RemoveAll_examples)
  have rgo15: "removeCmd linuxHost exampleWorld [''getgo'', ''remove'', ''go1.15''] =
      (Removed ''go1.15'', exampleWorld\<lparr>files := fmdrop ''/home/u/sdk/go1.15'' exampleFiles\<rparr>)"
    using inv r15 by (simp add: goPrefix_examples)
  from T16 have "fst (removeCmd linuxHost exampleWorld [''getgo'', ''remove'', ''1.16'']) =
        CantRemoveDefault (goPrefix ''1.16'') \<longleftrightarrow>
      isDefault linuxHost exampleWorld (goPrefix ''1.16'') = Inr True"
    by (elim conjE)
  with d16 have g16: "fst (removeCmd linuxHost exampleWorld [''getgo'', ''remove'', ''1.16'']) =
      CantRemoveDefault ''go1.16''"
    by (simp add: goPrefix_examples)
  from T15 have "HasPrefix (goPrefix ''1.15'') ''go''"
    by (elim conjE)
  then have hp: "HasPrefix ''go1.15'' ''go''"
    by (simp add: goPrefix_examples)
  from T15 have fx: "goPrefix ''go1.15'' = ''go1.15''"
    by (elim conjE)
  show ?thesis
    by (intro conjI home_example d15 r15 rgo15 d16 g16 l t hp fx idem)
qed

subsection \<open>Shell profiles\<close>

lemma Split_snoc:
  "x \<noteq> d \<Longrightarrow> Split (c @ [x]) d = butlast (Split c d) @ [last (Split c d) @ [x]]"
proof (induction c)
  case Nil
  then show ?case by simp
next
  case (Cons a c)
  obtain y ys where s: "Split c d = y # ys"
    using Split_not_Nil [of c d] by (cases "Split c d") auto
  obtain z zs where s': "Split (c @ [x]) d = z # zs"
    using Split_not_Nil [of "c @ [x]" d] by (cases "Split (c @ [x]) d") auto
  from Cons s s' show ?case
    by (cases ys) (auto split: if_splits)
qed

lemma scanLoop_append:
  assumes "\<forall>s \<in> set xs. length s < MaxScanTokenSize \<and> dropCR s \<noteq> val" and "ys \<noteq> []"
  shows "scanLoop val (xs @ ys) = scanLoop val ys"
  using assms
proof (induction xs)
  case Nil
  then show ?case by simp
next
  case (Cons x xs)
  then obtain z zs where "xs @ ys = z # zs" by (cases "xs @ ys") auto
  with Cons show ?case by simp
qed

lemma scanLines_append:
  "ys \<noteq> [] \<Longrightarrow> scanLines (xs @ ys) = map dropCR xs @ scanLines ys"
proof (induction xs)
  case Nil
  then show ?case by simp
next
  case (Cons x xs)
  then obtain z zs where "xs @ ys = z # zs" by (cases "xs @ ys") auto
  with Cons show ?case by simp
qed

lemma scanLoop_False:
  "scanLoop val (xs @ [l]) = Inr False \<Longrightarrow>
     (\<forall>s \<in> set xs. length s < MaxScanTokenSize \<and> dropCR s \<noteq> val) \<and>
     (l = [] \<or> (length l < MaxScanTokenSize \<and> dropCR l \<noteq> val))"
proof (induction xs)
  case Nil
  then show ?case by (auto split: if_splits)
next
  case (Cons x xs)
  obtain z zs where "xs @ [l] = z # zs" by (cases "xs @ [l]") auto
  with Cons show ?case by (auto split: if_splits)
qed

lemma scanLoop_True: "scanLoop val segs = Inr True \<Longrightarrow> val \<in> set (scanLines segs)"
  by (induction val segs rule: scanLoop.induct) (auto split: if_splits)

lemma count_list_map_zero: "\<forall>s \<in> set xs. f s \<noteq> v \<Longrightarrow> count_list (map f xs) v = 0"
  by (induction xs) auto

lemma count_list_pos: "v \<in> set xs \<Longrightarrow> 0 < count_list xs v"
  by (induction xs) auto

lemma dropCR_snoc_CR: "dropCR (s @ [CHR 0x0D]) = s"
  by (simp add: dropCR_def)

lemma dropCR_id: "s = [] \<or> last s \<noteq> CHR 0x0D \<Longrightarrow> dropCR s = s"
  by (auto simp: dropCR_def)

lemma scan_after:
  assumes "\<forall>s \<in> set xs. length s < MaxScanTokenSize \<and> dropCR s \<noteq> val"
    and "dropCR v' = val" and "length v' < MaxScanTokenSize"
  shows "scanLoop val (xs @ [l', v', []]) =
     (if MaxScanTokenSize \<le> length l' then Inl ErrTooLong else Inr True)"
  using assms by (simp add: scanLoop_append)

lemma lines_after:
  assumes "\<forall>s \<in> set xs. dropCR s \<noteq> val" and "dropCR l' \<noteq> val" and "dropCR v' = val"
  shows "count_list (scanLines (xs @ [l', v', []])) val = 1"
  using assms by (simp add: scanLines_append count_list_map_zero)

lemma lines_before:
  assumes "\<forall>s \<in> set xs. dropCR s \<noteq> val" and "l = [] \<or> dropCR l \<noteq> val"
  shows "count_list (scanLines (xs @ [l])) val = 0"
  using assms by (auto simp: scanLines_append count_list_map_zero)

lemma Split_data_LF:
  assumes "CHR 0x0A \<notin> set val"
  shows "Split (c @ [CHR 0x0A] @ val @ [CHR 0x0A]) (CHR 0x0A) =
     butlast (Split c (CHR 0x0A)) @ [last (Split c (CHR 0x0A)), val, []]"
proof -
  have "Split (c @ CHR 0x0A # (val @ CHR 0x0A # [])) (CHR 0x0A) =
      Split c (CHR 0x0A) @ Split val (CHR 0x0A) @ Split [] (CHR 0x0A)"
    by (simp only: Split_append)
  then show ?thesis
    using assms Split_not_Nil [of c "CHR 0x0A"] by (simp add: Split_no_sep)
qed

lemma Split_data_CRLF:
  assumes "CHR 0x0A \<notin> set val"
  shows "Split (c @ [CHR 0x0D, CHR 0x0A] @ val @ [CHR 0x0D, CHR 0x0A]) (CHR 0x0A) =
     butlast (Split c (CHR 0x0A)) @ [last (Split c (CHR 0x0A)) @ [CHR 0x0D], val @ [CHR 0x0D], []]"
proof -
  have "Split ((c @ [CHR 0x0D]) @ CHR 0x0A # ((val @ [CHR 0x0D]) @ CHR 0x0A # [])) (CHR 0x0A) =
      Split (c @ [CHR 0x0D]) (CHR 0x0A) @ Split (val @ [CHR 0x0D]) (CHR 0x0A) @ Split [] (CHR 0x0A)"
    by (simp only: Split_append)
  moreover have "Split (c @ [CHR 0x0D]) (CHR 0x0A) =
      butlast (Split c (CHR 0x0A)) @ [last (Split c (CHR 0x0A)) @ [CHR 0x0D]]"
    by (rule Split_snoc) simp
  moreover have "Split (val @ [CHR 0x0D]) (CHR 0x0A) = [val @ [CHR 0x0D]]"
    using assms by (intro Split_no_sep) simp
  ultimately show ?thesis by simp
qed

text \<open>What a second scan finds after the line has been written behind the
  contents \<open>c\<close> in which the first scan did not find it.\<close>

lemma rescan:
  assumes le: "le = [CHR 0x0A] \<or> le = [CHR 0x0D, CHR 0x0A]"
    and nl: "CHR 0x0A \<notin> set val" and ne: "val \<noteq> []" and cr: "last val \<noteq> CHR 0x0D"
    and len: "length (val @ le) \<le> MaxScanTokenSize"
    and first: "scanLoop val (Split c (CHR 0x0A)) = Inr False"
  shows "scanLoop val (Split (c @ le @ val @ le) (CHR 0x0A)) = Inr True \<or>
         (le \<noteq> [CHR 0x0A] \<and> scanLoop val (Split (c @ le @ val @ le) (CHR 0x0A)) = Inl ErrTooLong)"
    and "count_list (scanLines (Split (c @ le @ val @ le) (CHR 0x0A))) val = 1"
    and "count_list (scanLines (Split c (CHR 0x0A))) val = 0"
proof -
  define xs where "xs = butlast (Split c (CHR 0x0A))"
  define l where "l = last (Split c (CHR 0x0A))"
  have sp: "Split c (CHR 0x0A) = xs @ [l]"
    unfolding xs_def l_def using Split_not_Nil [of c "CHR 0x0A"] by simp
  from scanLoop_False [OF first [unfolded sp]]
  have xs: "\<forall>s \<in> set xs. length s < MaxScanTokenSize \<and> dropCR s \<noteq> val"
    and l: "l = [] \<or> (length l < MaxScanTokenSize \<and> dropCR l \<noteq> val)" by simp_all
  from xs have xs': "\<forall>s \<in> set xs. dropCR s \<noteq> val" by simp
  have dv: "dropCR val = val" using cr by (simp add: dropCR_id)
  have lne: "l \<noteq> val"
  proof
    assume "l = val"
    with l ne dv show False by simp
  qed
  show "count_list (scanLines (Split c (CHR 0x0A))) val = 0"
    unfolding sp using xs' l by (intro lines_before) auto
  from le show "scanLoop val (Split (c @ le @ val @ le) (CHR 0x0A)) = Inr True \<or>
         (le \<noteq> [CHR 0x0A] \<and> scanLoop val (Split (c @ le @ val @ le) (CHR 0x0A)) = Inl ErrTooLong)"
  proof
    assume e: "le = [CHR 0x0A]"
    have "length val < MaxScanTokenSize" using len e by simp
    moreover have "\<not> MaxScanTokenSize \<le> length l"
      using l by (auto simp: MaxScanTokenSize_def)
    ultimately have "scanLoop val (xs @ [l, val, []]) = Inr True"
      using scan_after [OF xs dv, of l] by simp
    then show ?thesis
      unfolding e Split_data_LF [OF nl] xs_def [symmetric] l_def [symmetric] by simp
  next
    assume e: "le = [CHR 0x0D, CHR 0x0A]"
    have "length (val @ [CHR 0x0D]) < MaxScanTokenSize" using len e by simp
    then have "scanLoop val (xs @ [l @ [CHR 0x0D], val @ [CHR 0x0D], []]) =
        (if MaxScanTokenSize \<le> length (l @ [CHR 0x0D]) then Inl ErrTooLong else Inr True)"
      by (intro scan_after [OF xs]) (simp_all add: dropCR_snoc_CR)
    then show ?thesis
      unfolding e Split_data_CRLF [OF nl] xs_def [symmetric] l_def [symmetric]
      by (auto split: if_splits)
  qed
  from le show "count_list (scanLines (Split (c @ le @ val @ le) (CHR 0x0A))) val = 1"
  proof
    assume e: "le = [CHR 0x0A]"
    have "dropCR l \<noteq> val" using l ne by (auto simp: dropCR_def)
    then show ?thesis
      unfolding e Split_data_LF [OF nl] xs_def [symmetric] l_def [symmetric]
      using xs' dv by (intro lines_after) simp_all
  next
    assume e: "le = [CHR 0x0D, CHR 0x0A]"
    have "dropCR (l @ [CHR 0x0D]) \<noteq> val" using lne by (simp add: dropCR_snoc_CR)
    then show ?thesis
      unfolding e Split_data_CRLF [OF nl] xs_def [symmetric] l_def [symmetric]
      using xs' by (intro lines_after) (simp_all add: dropCR_snoc_CR)
  qed
qed

lemma followLinks_nonlink: "followLinks n fs f = Some p \<Longrightarrow> fmlookup fs p \<noteq> Some (Link t)"
  by (induction n arbitrary: f) (auto split: option.splits node.splits)

lemma followLinks_fmupd:
  "followLinks n fs f = Some p \<Longrightarrow> followLinks n (fmupd p (File x) fs) f = Some p"
proof (induction n arbitrary: f)
  case 0
  then show ?case by (auto split: option.splits node.splits)
next
  case (Suc n)
  show ?case
  proof (cases "f = p")
    case True
    then show ?thesis by simp
  next
    case False
    with Suc show ?thesis by (auto split: option.splits node.splits)
  qed
qed

lemma appendString_read:
  assumes "appendString fs f data = Inr fs1"
  shows "readFile fs1 f = Inr ((case readFile fs f of Inl _ \<Rightarrow> [] | Inr c \<Rightarrow> c) @ data)"
proof -
  from assms obtain p where p: "followLinks maxSymlinks fs f = Some p"
    by (auto simp: appendString_def split: option.splits)
  show ?thesis
  proof (cases "fmlookup fs p")
    case None
    with assms p have "fs1 = fmupd p (File data) fs"
      by (simp add: appendString_def split: option.splits)
    with None p followLinks_fmupd [OF p, of "data"] show ?thesis
      by (simp add: readFile_def)
  next
    case (Some nd)
    with assms p obtain c where c: "nd = File c" and "fs1 = fmupd p (File (c @ data)) fs"
      by (auto simp: appendString_def split: node.splits)
    with Some p followLinks_fmupd [OF p, of "c @ data"] show ?thesis
      by (simp add: readFile_def)
  qed
qed

lemma checkStringExistsFile_scan:
  "checkStringExistsFile fs f val = Inr b \<Longrightarrow>
     scanLoop val (Split (case readFile fs f of Inl _ \<Rightarrow> [] | Inr c \<Rightarrow> c) (CHR 0x0A)) = Inr b"
  by (auto simp: checkStringExistsFile_def split: sum.splits if_splits)

lemma occurrences_eq:
  "occurrences fs f val =
     count_list (scanLines (Split (case readFile fs f of Inl _ \<Rightarrow> [] | Inr c \<Rightarrow> c) (CHR 0x0A))) val"
  by (simp add: occurrences_def split: sum.splits)

text \<open>
  Claim C6.  Let \<open>val\<close> be a line: not empty, without a newline, without a
  carriage return at its end, and short enough for the scanner together with
  its line ending.  When appending it has succeeded, appending it again writes
  nothing (and succeeds, when the line ending is a single newline): the scan
  finds the line.
  The file then holds the line once if it did not hold it before, and as
  often as before otherwise; so a file that held it at most once holds it
  exactly once after two appends.
\<close>

theorem appendToFile_idempotent:
  assumes "lineEnding h = [CHR 0x0A] \<or> lineEnding h = [CHR 0x0D, CHR 0x0A]"
    and "CHR 0x0A \<notin> set val" and "val \<noteq> []" and "last val \<noteq> CHR 0x0D"
    and "length (val @ lineEnding h) \<le> MaxScanTokenSize"
    and "appendToFile h fs filename val = (None, fs1)"
  shows "snd (appendToFile h fs1 filename val) = fs1 \<and>
         (lineEnding h = [CHR 0x0A] \<longrightarrow> appendToFile h fs1 filename val = (None, fs1)) \<and>
         occurrences fs1 filename val = max 1 (occurrences fs filename val) \<and>
         (occurrences fs filename val \<le> 1 \<longrightarrow>
            occurrences (snd (appendToFile h fs1 filename val)) filename val = 1)"
proof -
  define c where "c = (case readFile fs filename of Inl _ \<Rightarrow> [] | Inr c \<Rightarrow> c)"
  define le where "le = lineEnding h"
  from assms(6) obtain b where chk: "checkStringExistsFile fs filename val = Inr b"
    by (auto simp: appendToFile_def split: sum.splits)
  have scan: "scanLoop val (Split c (CHR 0x0A)) = Inr b"
    unfolding c_def using chk by (rule checkStringExistsFile_scan)
  have occ: "occurrences fs filename val = count_list (scanLines (Split c (CHR 0x0A))) val"
    unfolding c_def by (rule occurrences_eq)
  have core: "snd (appendToFile h fs1 filename val) = fs1 \<and>
         (le = [CHR 0x0A] \<longrightarrow> appendToFile h fs1 filename val = (None, fs1)) \<and>
         occurrences fs1 filename val = max 1 (occurrences fs filename val)"
  proof (cases b)
    case True
    with assms(6) chk have same: "fs1 = fs"
      by (simp add: appendToFile_def)
    from True scan have "val \<in> set (scanLines (Split c (CHR 0x0A)))"
      by (simp add: scanLoop_True)
    then have "0 < occurrences fs filename val"
      unfolding occ by (rule count_list_pos)
    with True chk same show ?thesis
      by (simp add: appendToFile_def max_def)
  next
    case False
    with assms(6) chk have app: "appendString fs filename (le @ val @ le) = Inr fs1"
      by (auto simp: appendToFile_def le_def split: sum.splits)
    have rd: "readFile fs1 filename = Inr (c @ le @ val @ le)"
      unfolding c_def using app by (rule appendString_read)
    from False scan have first: "scanLoop val (Split c (CHR 0x0A)) = Inr False" by simp
    have le: "le = [CHR 0x0A] \<or> le = [CHR 0x0D, CHR 0x0A]"
      and len: "length (val @ le) \<le> MaxScanTokenSize"
      using assms(1,5) by (simp_all add: le_def)
    note r = rescan [OF le assms(2) assms(3) assms(4) len first]
    have o1: "occurrences fs1 filename val = 1"
      using r(2) by (simp add: occurrences_def rd)
    have o0: "occurrences fs filename val = 0"
      using r(3) by (simp add: occ)
    have chk1: "checkStringExistsFile fs1 filename val = Inr True \<or>
        (le \<noteq> [CHR 0x0A] \<and> checkStringExistsFile fs1 filename val = Inl ErrTooLong)"
      using r(1) by (simp add: checkStringExistsFile_def rd)
    then show ?thesis
      using o0 o1 by (auto simp: appendToFile_def)
  qed
  then show ?thesis
    by (auto simp: le_def max_def)
qed

lemma followLinks_file: "fmlookup fs p = Some (File c) \<Longrightarrow> followLinks n fs p = Some p"
  by (cases n) simp_all

lemma followLinks_absent: "fmlookup fs p = None \<Longrightarrow> followLinks n fs p = Some p"
  by (cases n) simp_all

lemma appendToFile_example:
  "appendToFile linuxHost profileFiles ''/home/u/.bash_profile'' ''export GOPATH=/home/u/go''
     = (None, profileFiles1)"
proof -
  have r: "readFile profileFiles ''/home/u/.bash_profile'' = Inr ''# profile''"
    by (simp add: readFile_def profileFiles_def followLinks_file)
  have c: "checkStringExistsFile profileFiles ''/home/u/.bash_profile'' ''export GOPATH=/home/u/go''
      = Inr False"
    by (simp add: checkStringExistsFile_def r MaxScanTokenSize_def dropCR_def)
  have a: "appendString profileFiles ''/home/u/.bash_profile''
      ([CHR 0x0A] @ ''export GOPATH=/home/u/go'' @ [CHR 0x0A]) = Inr profileFiles1"
    by (simp add: appendString_def profileFiles_def profileFiles1_def followLinks_file)
  show ?thesis
    using a by (simp add: appendToFile_def c linuxHost_def)
qed

theorem appendToFile_idempotent_witness:
  "appendToFile linuxHost profileFiles ''/home/u/.bash_profile'' ''export GOPATH=/home/u/go''
     = (None, profileFiles1) \<and>
   occurrences profileFiles ''/home/u/.bash_profile'' ''export GOPATH=/home/u/go'' = 0 \<and>
   appendToFile linuxHost profileFiles1 ''/home/u/.bash_profile'' ''export GOPATH=/home/u/go''
     = (None, profileFiles1) \<and>
   occurrences profileFiles1 ''/home/u/.bash_profile'' ''export GOPATH=/home/u/go'' = 1"
proof -
  have le: "lineEnding linuxHost = [CHR 0x0A] \<or> lineEnding linuxHost = [CHR 0x0D, CHR 0x0A]"
    by (simp add: linuxHost_def)
  have nl: "CHR 0x0A \<notin> set ''export GOPATH=/home/u/go''" by simp
  have ne: "''export GOPATH=/home/u/go'' \<noteq> []" by simp
  have cr: "last ''export GOPATH=/home/u/go'' \<noteq> CHR 0x0D" by simp
  have len: "length (''export GOPATH=/home/u/go'' @ lineEnding linuxHost) \<le> MaxScanTokenSize"
    by (simp add: linuxHost_def MaxScanTokenSize_def)
  have o: "occurrences profileFiles ''/home/u/.bash_profile'' ''export GOPATH=/home/u/go'' = 0"
    by (simp add: occurrences_def readFile_def profileFiles_def followLinks_file dropCR_def)
  from appendToFile_idempotent [OF le nl ne cr len appendToFile_example] appendToFile_example o
  show ?thesis by (simp add: linuxHost_def)
qed

subsection \<open>The shell\<close>

lemma persistEnvVar_files:
  assumes "GOOS h \<noteq> ''windows''" and "shellConfigFile h w = Inr rc"
  shows "files (snd (persistEnvVar h w name val)) =
     snd (appendToFile h (files w) rc (''export '' @ ToUpper name @ ''='' @ val))"
  using assms
  by (auto simp: persistEnvVar_def os_Setenv_def split: prod.splits option.splits)

text \<open>
  Claim C8.  On a host other than Windows whose home directory is known:
  when the name of the current shell contains neither \<open>bash\<close> nor \<open>zsh\<close>,
  \<open>persistEnvVar\<close> fails with the error for an unsupported shell and changes
  nothing; when it contains \<open>bash\<close> the profile is \<open>.bash_profile\<close> in the
  home directory, when it contains \<open>zsh\<close> and not \<open>bash\<close> it is \<open>.zshrc\<close>,
  and the files after the call are those that \<open>appendToFile\<close> leaves when
  it appends the \<open>export\<close> line to that profile.
\<close>

theorem persistEnvVar_shell:
  assumes "GOOS h \<noteq> ''windows''" and "getHomeDir h w = Inr home"
  shows "(\<not> isShell h ''bash'' \<and> \<not> isShell h ''zsh'' \<longrightarrow>
            shellConfigFile h w = Inl (UnsupportedShell (currentShell h)) \<and>
            persistEnvVar h w name val = (Some (UnsupportedShell (currentShell h)), w)) \<and>
         (isShell h ''bash'' \<longrightarrow>
            shellConfigFile h w = Inr (filepath_Join [home, ''.bash_profile'']) \<and>
            files (snd (persistEnvVar h w name val)) =
              snd (appendToFile h (files w) (filepath_Join [home, ''.bash_profile''])
                     (''export '' @ ToUpper name @ ''='' @ val))) \<and>
         (\<not> isShell h ''bash'' \<and> isShell h ''zsh'' \<longrightarrow>
            shellConfigFile h w = Inr (filepath_Join [home, ''.zshrc'']) \<and>
            files (snd (persistEnvVar h w name val)) =
              snd (appendToFile h (files w) (filepath_Join [home, ''.zshrc''])
                     (''export '' @ ToUpper name @ ''='' @ val)))"
proof (intro conjI impI)
  assume "\<not> isShell h ''bash'' \<and> \<not> isShell h ''zsh''"
  then show u: "shellConfigFile h w = Inl (UnsupportedShell (currentShell h))"
    using assms(2) by (simp add: shellConfigFile_def)
  show "persistEnvVar h w name val = (Some (UnsupportedShell (currentShell h)), w)"
    using assms(1) u by (simp add: persistEnvVar_def)
next
  assume "isShell h ''bash''"
  then show b: "shellConfigFile h w = Inr (filepath_Join [home, ''.bash_profile''])"
    using assms(2) by (simp add: shellConfigFile_def bashConfig_def)
  show "files (snd (persistEnvVar h w name val)) =
      snd (appendToFile h (files w) (filepath_Join [home, ''.bash_profile''])
             (''export '' @ ToUpper name @ ''='' @ val))"
    using assms(1) b by (rule persistEnvVar_files)
next
  assume "\<not> isShell h ''bash'' \<and> isShell h ''zsh''"
  then show z: "shellConfigFile h w = Inr (filepath_Join [home, ''.zshrc''])"
    using assms(2) by (simp add: shellConfigFile_def zshConfig_def)
  show "files (snd (persistEnvVar h w name val)) =
      snd (appendToFile h (files w) (filepath_Join [home, ''.zshrc''])
             (''export '' @ ToUpper name @ ''='' @ val))"
    using assms(1) z by (rule persistEnvVar_files)
qed

lemma getHomeDir_example: "getHomeDir h exampleWorld = UserHomeDir h exampleWorld"
  by (simp add: getHomeDir_def split: sum.splits)

lemma home_example_shell:
  "getHomeDir (linuxHost\<lparr>currentShell := sh\<rparr>) exampleWorld = Inr ''/home/u''"
  by (simp add: getHomeDir_def UserHomeDir_def linuxHost_def exampleWorld_def Getenv_def)

lemma Join_profile_examples:
  "filepath_Join [''/home/u'', ''.bash_profile''] = ''/home/u/.bash_profile''"
  "filepath_Join [''/home/u'', ''.zshrc''] = ''/home/u/.zshrc''"
  by (simp_all add: filepath_Join_def filepath_Clean_def cleanStep_def)

lemma shell_examples:
  "isShell (linuxHost\<lparr>currentShell := ''/bin/bash''\<rparr>) ''bash''"
  "\<not> isShell (linuxHost\<lparr>currentShell := ''/bin/zsh''\<rparr>) ''bash''"
  "isShell (linuxHost\<lparr>currentShell := ''/bin/zsh''\<rparr>) ''zsh''"
  "\<not> isShell (linuxHost\<lparr>currentShell := ''/usr/bin/fish''\<rparr>) ''bash''"
  "\<not> isShell (linuxHost\<lparr>currentShell := ''/usr/bin/fish''\<rparr>) ''zsh''"
  by (simp_all add: isShell_def)

theorem persistEnvVar_shell_witness:
  "shellConfigFile (linuxHost\<lparr>currentShell := ''/bin/bash''\<rparr>) exampleWorld
     = Inr ''/home/u/.bash_profile'' \<and>
   fmlookup (files (snd (persistEnvVar (linuxHost\<lparr>currentShell := ''/bin/bash''\<rparr>) exampleWorld
       ''gopath'' ''/home/u/go''))) ''/home/u/.bash_profile''
     = Some (File ([CHR 0x0A] @ ''export GOPATH=/home/u/go'' @ [CHR 0x0A])) \<and>
   shellConfigFile (linuxHost\<lparr>currentShell := ''/bin/zsh''\<rparr>) exampleWorld
     = Inr ''/home/u/.zshrc'' \<and>
   persistEnvVar (linuxHost\<lparr>currentShell := ''/usr/bin/fish''\<rparr>) exampleWorld
       ''gopath'' ''/home/u/go''
     = (Some (UnsupportedShell ''/usr/bin/fish''), exampleWorld)"
proof -
  have w: "GOOS (linuxHost\<lparr>currentShell := sh\<rparr>) \<noteq> ''windows''" for sh
    by (simp add: linuxHost_def)
  have up: "ToUpper ''gopath'' = ''GOPATH''"
    by code_simp
  have ab: "fmlookup exampleFiles ''/home/u/.bash_profile'' = None"
    by (simp add: exampleFiles_def)
  have pd: "parentDir ''/home/u/.bash_profile'' = ''/home/u''"
    by (simp add: parentDir_def)
  have hd: "dirError exampleFiles ''/home/u'' = None"
    by (rule dirError_Dir) (simp add: exampleFiles_def)
  have ap: "appendToFile (linuxHost\<lparr>currentShell := ''/bin/bash''\<rparr>) exampleFiles
      ''/home/u/.bash_profile'' ''export GOPATH=/home/u/go'' =
      (None, fmupd ''/home/u/.bash_profile''
               (File ([CHR 0x0A] @ ''export GOPATH=/home/u/go'' @ [CHR 0x0A])) exampleFiles)"
    by (simp add: appendToFile_def checkStringExistsFile_def readFile_def appendString_def
        followLinks_absent [OF ab] ab IsNotExist_def linuxHost_def pd hd)
  from persistEnvVar_shell [OF w home_example_shell, of "''/bin/bash''" "''gopath''" "''/home/u/go''"]
    persistEnvVar_shell [OF w home_example_shell, of "''/bin/zsh''" "''gopath''" "''/home/u/go''"]
    persistEnvVar_shell [OF w home_example_shell, of "''/usr/bin/fish''" "''gopath''" "''/home/u/go''"]
  show ?thesis
    using shell_examples
    by (simp add: Join_profile_examples up files_example ap)
qed

end
